theory Spec2Isabelle
  imports Complex_Main "HOL-Library.Extended_Nat"
begin

section \<open>Floating-point values and numpy arrays\<close>

text \<open>
  The cost functions of \<^verbatim>\<open>iminuit/cost.py\<close> compute with numpy arrays of floats.
  A float is modelled as an exact real number or one of the three special values of
  IEEE 754: the arithmetic on finite values is the exact one (rounding, overflow and
  the sign of zero are left out), the arithmetic on the special values is the one numpy
  performs. So \<open>np.log(0.0)\<close> is \<open>-inf\<close>, \<open>0.0 * inf\<close> and \<open>0.0 / 0.0\<close> are
  \<open>nan\<close>, as in the program, and not the values HOL's total functions would give.
\<close>

datatype npfloat = Fin real | PInf | NInf | NaN

instantiation npfloat :: "{zero, one, plus, uminus, minus, times, inverse}"
begin

definition zero_npfloat :: npfloat where
  "zero_npfloat = Fin 0"

definition one_npfloat :: npfloat where
  "one_npfloat = Fin 1"

fun plus_npfloat :: "npfloat \<Rightarrow> npfloat \<Rightarrow> npfloat" where
  "plus_npfloat NaN y = NaN"
| "plus_npfloat x NaN = NaN"
| "plus_npfloat (Fin a) (Fin b) = Fin (a + b)"
| "plus_npfloat PInf NInf = NaN"
| "plus_npfloat NInf PInf = NaN"
| "plus_npfloat PInf y = PInf"
| "plus_npfloat NInf y = NInf"
| "plus_npfloat (Fin a) y = y"

fun uminus_npfloat :: "npfloat \<Rightarrow> npfloat" where
  "uminus_npfloat (Fin a) = Fin (- a)"
| "uminus_npfloat PInf = NInf"
| "uminus_npfloat NInf = PInf"
| "uminus_npfloat NaN = NaN"

definition minus_npfloat :: "npfloat \<Rightarrow> npfloat \<Rightarrow> npfloat" where
  "minus_npfloat x y = x + (- y)"

fun times_npfloat :: "npfloat \<Rightarrow> npfloat \<Rightarrow> npfloat" where
  "times_npfloat NaN y = NaN"
| "times_npfloat x NaN = NaN"
| "times_npfloat (Fin a) (Fin b) = Fin (a * b)"
| "times_npfloat (Fin a) PInf = (if a = 0 then NaN else if 0 < a then PInf else NInf)"
| "times_npfloat (Fin a) NInf = (if a = 0 then NaN else if 0 < a then NInf else PInf)"
| "times_npfloat PInf (Fin b) = (if b = 0 then NaN else if 0 < b then PInf else NInf)"
| "times_npfloat NInf (Fin b) = (if b = 0 then NaN else if 0 < b then NInf else PInf)"
| "times_npfloat PInf PInf = PInf"
| "times_npfloat PInf NInf = NInf"
| "times_npfloat NInf PInf = NInf"
| "times_npfloat NInf NInf = PInf"

fun divide_npfloat :: "npfloat \<Rightarrow> npfloat \<Rightarrow> npfloat" where
  "divide_npfloat NaN y = NaN"
| "divide_npfloat x NaN = NaN"
| "divide_npfloat (Fin a) (Fin b) =
     (if b \<noteq> 0 then Fin (a / b)
      else if a = 0 then NaN else if 0 < a then PInf else NInf)"
| "divide_npfloat (Fin a) y = Fin 0"
| "divide_npfloat PInf (Fin b) = (if 0 \<le> b then PInf else NInf)"
| "divide_npfloat NInf (Fin b) = (if 0 \<le> b then NInf else PInf)"
| "divide_npfloat x y = NaN"

definition inverse_npfloat :: "npfloat \<Rightarrow> npfloat" where
  "inverse_npfloat x = divide (Fin 1) x"

instance ..

end

text \<open>\<open>np.log\<close> and \<open>np.sqrt\<close> on one float.\<close>

fun np_log :: "npfloat \<Rightarrow> npfloat" where
  "np_log (Fin a) = (if 0 < a then Fin (ln a) else if a = 0 then NInf else NaN)"
| "np_log PInf = PInf"
| "np_log NInf = NaN"
| "np_log NaN = NaN"

fun np_sqrt :: "npfloat \<Rightarrow> npfloat" where
  "np_sqrt (Fin a) = (if 0 \<le> a then Fin (sqrt a) else NaN)"
| "np_sqrt PInf = PInf"
| "np_sqrt NInf = NaN"
| "np_sqrt NaN = NaN"

text \<open>The literal \<^verbatim>\<open>1e-323\<close> that guards every logarithm and the Bohm-Zech division.\<close>

definition tiny_val :: real where
  "tiny_val = 1 / 10 ^ 323"

definition tiny :: npfloat where
  "tiny = Fin tiny_val"

text \<open>
  \<open>np.sum\<close> of a one-dimensional array: the elements are added from \<open>0.0\<close>.
\<close>

fun np_sum :: "npfloat list \<Rightarrow> npfloat" where
  "np_sum [] = Fin 0"
| "np_sum (x # xs) = x + np_sum xs"

text \<open>\<open>np.diff\<close> of a one-dimensional array: \<open>out[i] = a[i+1] - a[i]\<close>.\<close>

fun np_diff :: "npfloat list \<Rightarrow> npfloat list" where
  "np_diff (a # b # xs) = (b - a) # np_diff (b # xs)"
| "np_diff xs = []"

datatype error = ValueError string | IndexError | TypeError

text \<open>
  An elementwise binary operation on two one-dimensional arrays, with numpy's
  broadcasting: equal lengths go pairwise, an array of length one is stretched, any
  other pair of lengths raises ValueError.
\<close>

definition broadcast2 ::
  "(npfloat \<Rightarrow> npfloat \<Rightarrow> npfloat) \<Rightarrow> npfloat list \<Rightarrow> npfloat list \<Rightarrow> error + npfloat list" where
  "broadcast2 f xs ys =
     (if length xs = length ys then Inr (map2 f xs ys)
      else if length xs = 1 then Inr (map (f (hd xs)) ys)
      else if length ys = 1 then Inr (map (\<lambda>x. f x (hd ys)) xs)
      else Inl (ValueError ''operands could not be broadcast together''))"

definition bind_err :: "error + 'a \<Rightarrow> ('a \<Rightarrow> error + 'b) \<Rightarrow> error + 'b" where
  "bind_err r k = (case r of Inl e \<Rightarrow> Inl e | Inr v \<Rightarrow> k v)"


text \<open>
  An array of floats of dimension zero (a scalar), one or two. A two-dimensional array
  is the list of its rows together with the number of columns, so that the shape
  \<open>(0, c)\<close> exists. Arrays of higher dimension are outside the model.
\<close>

datatype ndarray = A0 npfloat | A1 "npfloat list" | A2 nat "npfloat list list"

fun shape :: "ndarray \<Rightarrow> nat list" where
  "shape (A0 x) = []"
| "shape (A1 xs) = [length xs]"
| "shape (A2 c rows) = [length rows, c]"

definition ndim :: "ndarray \<Rightarrow> nat" where
  "ndim a = length (shape a)"

text \<open>A two-dimensional array is well formed when every row has the declared width.\<close>

fun wf_array :: "ndarray \<Rightarrow> bool" where
  "wf_array (A2 c rows) = list_all (\<lambda>r. length r = c) rows"
| "wf_array a = True"

text \<open>\<open>len(a)\<close>: the size of the first axis; a scalar has none.\<close>

fun len :: "ndarray \<Rightarrow> error + nat" where
  "len (A0 x) = Inl TypeError"
| "len (A1 xs) = Inr (length xs)"
| "len (A2 c rows) = Inr (length rows)"

text \<open>\<open>a[:, k]\<close> (the same as \<open>a.T[k]\<close>) of a two-dimensional array.\<close>

definition column :: "nat \<Rightarrow> npfloat list list \<Rightarrow> npfloat list" where
  "column k rows = map (\<lambda>r. r ! k) rows"

text \<open>
  \<^verbatim>\<open>
  def _norm(value):
      value = np.atleast_1d(value)
      dtype = value.dtype
      if dtype.kind != "f":
          value = value.astype(np.float64)
      return value
  \<close>
\<close>

fun norm_arr :: "ndarray \<Rightarrow> ndarray" where
  "norm_arr (A0 x) = A1 [x]"
| "norm_arr a = a"

subsection \<open>Masks and indexing along the first axis\<close>

text \<open>
  A mask is a boolean array or an array of indices. \<open>values[mask]\<close> with a boolean
  mask keeps the entries at the True positions and needs a mask as long as the first
  axis; with an index array it picks the named entries, a negative index counting from
  the end, and every index has to be in range. Anything else raises IndexError.
\<close>

datatype mask = BoolMask "bool list" | IndexMask "int list"

fun np_take :: "'a list \<Rightarrow> mask \<Rightarrow> error + 'a list" where
  "np_take xs (BoolMask bs) =
     (if length bs = length xs then Inr (map fst (filter snd (zip xs bs)))
      else Inl IndexError)"
| "np_take xs (IndexMask js) =
     (let n = int (length xs) in
      if list_all (\<lambda>j. - n \<le> j \<and> j < n) js
      then Inr (map (\<lambda>j. xs ! nat (if j < 0 then j + n else j)) js)
      else Inl IndexError)"

fun getitem :: "ndarray \<Rightarrow> mask \<Rightarrow> error + ndarray" where
  "getitem (A0 x) m = Inl IndexError"
| "getitem (A1 xs) m = bind_err (np_take xs m) (\<lambda>v. Inr (A1 v))"
| "getitem (A2 c rows) m = bind_err (np_take rows m) (\<lambda>v. Inr (A2 c v))"

text \<open>
  \<open>dest[:] = value\<close>: the value is broadcast to the shape of the destination, which
  keeps its shape. The value's axes are matched from the last one; each has the
  destination's size or size one, and axes the destination does not have must have size
  one. Otherwise numpy raises ValueError and writes nothing.
\<close>

fun stretch :: "nat \<Rightarrow> 'a list \<Rightarrow> 'a list" where
  "stretch n xs = (if length xs = n then xs else replicate n (hd xs))"

fun fits :: "nat \<Rightarrow> nat \<Rightarrow> bool" where
  "fits v d = (v = d \<or> v = 1)"

fun assign_all :: "ndarray \<Rightarrow> ndarray \<Rightarrow> error + ndarray" where
  "assign_all (A0 d) v = Inl TypeError"
| "assign_all (A1 xs) (A0 v) = Inr (A1 (replicate (length xs) v))"
| "assign_all (A1 xs) (A1 ys) =
     (if fits (length ys) (length xs) then Inr (A1 (stretch (length xs) ys))
      else Inl (ValueError ''could not broadcast input array''))"
| "assign_all (A1 xs) (A2 c rows) =
     (if length rows = 1 \<and> length (hd rows) = c \<and> fits c (length xs)
      then Inr (A1 (stretch (length xs) (hd rows)))
      else Inl (ValueError ''could not broadcast input array''))"
| "assign_all (A2 c rows) (A0 v) = Inr (A2 c (replicate (length rows) (replicate c v)))"
| "assign_all (A2 c rows) (A1 ys) =
     (if fits (length ys) c then Inr (A2 c (replicate (length rows) (stretch c ys)))
      else Inl (ValueError ''could not broadcast input array''))"
| "assign_all (A2 c rows) (A2 c' rows') =
     (if fits (length rows') (length rows) \<and> fits c' c \<and> list_all (\<lambda>r. length r = c') rows'
      then Inr (A2 c (map (stretch c) (stretch (length rows) rows')))
      else Inl (ValueError ''could not broadcast input array''))"

section \<open>Cost and MaskedCost\<close>

text \<open>
  The classes are records, a subclass extending the record of its base class. The
  fields \<open>u_data\<close>, \<open>u_mask\<close>, \<open>u_masked\<close> are the slots \<^verbatim>\<open>_data\<close>, \<^verbatim>\<open>_mask\<close>,
  \<^verbatim>\<open>_masked\<close> (a HOL name cannot begin with an underscore); \<open>func_code\<close> holds the
  parameter names that \<^verbatim>\<open>make_func_code\<close> stores. A setter or constructor that
  raises is the value \<open>Inl\<close>; what the object holds after an exception is not
  followed.
\<close>

record Cost =
  func_code :: "string list"
  verbose :: int

record MaskedCost = Cost +
  u_data :: ndarray
  u_mask :: "mask option"
  u_masked :: ndarray

text \<open>
  \<^verbatim>\<open>
  def _update_masked(self):
      self._masked = self._data if self._mask is None else self._data[self._mask]
  \<close>
\<close>

definition masked_view :: "ndarray \<Rightarrow> mask option \<Rightarrow> error + ndarray" where
  "masked_view d m = (case m of None \<Rightarrow> Inr d | Some k \<Rightarrow> getitem d k)"

definition update_masked :: "'a MaskedCost_scheme \<Rightarrow> error + 'a MaskedCost_scheme" where
  "update_masked c =
     bind_err (masked_view (u_data c) (u_mask c)) (\<lambda>v. Inr (c\<lparr>u_masked := v\<rparr>))"

text \<open>
  \<^verbatim>\<open>
  @mask.setter
  def mask(self, mask):
      self._mask = None if mask is None else np.asarray(mask)
      self._update_masked()
  \<close>
\<close>

definition set_mask :: "mask option \<Rightarrow> 'a MaskedCost_scheme \<Rightarrow> error + 'a MaskedCost_scheme" where
  "set_mask m c = update_masked (c\<lparr>u_mask := m\<rparr>)"

text \<open>
  \<^verbatim>\<open>
  @data.setter
  def data(self, value):
      self._data[:] = value
      self._update_masked()
  \<close>
\<close>

definition set_data :: "ndarray \<Rightarrow> 'a MaskedCost_scheme \<Rightarrow> error + 'a MaskedCost_scheme" where
  "set_data v c =
     bind_err (assign_all (u_data c) v) (\<lambda>d. update_masked (c\<lparr>u_data := d\<rparr>))"

text \<open>\<open>MaskedCost.ndata\<close> is \<open>len(self._masked)\<close>.\<close>

definition masked_ndata :: "'a MaskedCost_scheme \<Rightarrow> error + nat" where
  "masked_ndata c = len (u_masked c)"

text \<open>
  \<^verbatim>\<open>
  def __init__(self, args, data, verbose):
      super().__init__(args, verbose)
      if np.ndim(data) > 1:
          self._data = np.transpose(data)
      self._data = data
      self.mask = None  # triggers update of _masked, _ndata
  \<close>
  The transposed array is overwritten by the next statement. With no mask the update
  cannot raise, so the constructor returns a plain value.
\<close>

definition MaskedCost_init :: "string list \<Rightarrow> ndarray \<Rightarrow> int \<Rightarrow> MaskedCost" where
  "MaskedCost_init args d v =
     \<lparr>func_code = args, verbose = v, u_data = d, u_mask = None, u_masked = d\<rparr>"


section \<open>Unbinned negative log-likelihood\<close>

text \<open>
  \<^verbatim>\<open>
  def _sum_log_x(x):
      return np.sum(np.log(x + 1e-323))
  \<close>
  The numba variant compiles the same function, so one definition stands for both.
\<close>

definition sum_log_x :: "npfloat list \<Rightarrow> npfloat" where
  "sum_log_x x = np_sum (map (\<lambda>v. np_log (v + tiny)) x)"

text \<open>
  The model is a callable \<open>f(data, *args)\<close>; its result is taken to be a
  one-dimensional numpy array, which \<^verbatim>\<open>_normalize_model_output\<close> returns as it is.
  \<open>describe(model)\<close>, the reflection on the callable's signature, is an argument of
  the constructor (\<open>names\<close>).
\<close>

record 'm UnbinnedCost = MaskedCost +
  u_model :: 'm
  u_log :: bool

text \<open>
  \<^verbatim>\<open>
  def __init__(self, data, model: Callable, verbose: int, log: bool):
      self._model = model
      self._log = log
      super().__init__(describe(model)[1:], _norm(data), verbose)
  \<close>
\<close>

definition UnbinnedCost_init ::
  "ndarray \<Rightarrow> 'm \<Rightarrow> string list \<Rightarrow> int \<Rightarrow> bool \<Rightarrow> 'm UnbinnedCost" where
  "UnbinnedCost_init d model names v lg =
     \<lparr>func_code = drop 1 names, verbose = v, u_data = norm_arr d, u_mask = None,
      u_masked = norm_arr d, u_model = model, u_log = lg\<rparr>"

type_synonym pdf = "ndarray \<Rightarrow> npfloat list \<Rightarrow> npfloat list"

text \<open>
  \<^verbatim>\<open>
  def _call(self, args):
      data = self._masked
      x = self._model(data, *args)
      x = _normalize_model_output(x)
      if self._log:
          return -2.0 * np.sum(x)
      return -2.0 * _sum_log_x(x)
  \<close>
\<close>

definition UnbinnedNLL_call :: "pdf UnbinnedCost \<Rightarrow> npfloat list \<Rightarrow> npfloat" where
  "UnbinnedNLL_call c args =
     (let dat = u_masked c;
          x = u_model c dat args
      in if u_log c then Fin (- 2) * np_sum x else Fin (- 2) * sum_log_x x)"

section \<open>Binned negative log-likelihood\<close>

text \<open>
  \<^verbatim>\<open>
  def _log_poisson_part(n, mu):
      # add n log(n) to keep sum small, required to not loose accuracy in Minuit
      return n * (np.log(n + 1e-323) - np.log(mu + 1e-323))

  def _sum_log_poisson_part(n, mu):
      return np.sum(_log_poisson_part(n, mu))

  def _sum_log_poisson(n, mu):
      # subtract n to keep sum small, required to not loose accuracy in Minuit
      return np.sum(mu - n + _log_poisson_part(n, mu))
  \<close>
\<close>

definition log_poisson_part :: "npfloat list \<Rightarrow> npfloat list \<Rightarrow> error + npfloat list" where
  "log_poisson_part n mu =
     bind_err (broadcast2 (-) (map (\<lambda>v. np_log (v + tiny)) n) (map (\<lambda>v. np_log (v + tiny)) mu))
       (\<lambda>d. broadcast2 (*) n d)"

definition sum_log_poisson_part :: "npfloat list \<Rightarrow> npfloat list \<Rightarrow> error + npfloat" where
  "sum_log_poisson_part n mu = bind_err (log_poisson_part n mu) (\<lambda>r. Inr (np_sum r))"

definition sum_log_poisson :: "npfloat list \<Rightarrow> npfloat list \<Rightarrow> error + npfloat" where
  "sum_log_poisson n mu =
     bind_err (broadcast2 (-) mu n) (\<lambda>a.
     bind_err (log_poisson_part n mu) (\<lambda>p.
     bind_err (broadcast2 (+) a p) (\<lambda>r. Inr (np_sum r))))"

text \<open>
  \<open>a[:, j]\<close> as the program reads it: IndexError on an array that is not
  two-dimensional or has no column \<open>j\<close>.
\<close>

fun col :: "nat \<Rightarrow> ndarray \<Rightarrow> error + npfloat list" where
  "col j (A2 k rows) = (if j < k then Inr (column j rows) else Inl IndexError)"
| "col j a = Inl IndexError"

text \<open>
  \<open>mu *= w\<close>: an in-place elementwise product. The result has to fit into \<open>mu\<close>, so
  \<open>w\<close> is as long as \<open>mu\<close> or has length one.
\<close>

definition imul :: "npfloat list \<Rightarrow> npfloat list \<Rightarrow> error + npfloat list" where
  "imul mu w =
     (if length w = length mu then Inr (map2 (*) mu w)
      else if length w = 1 then Inr (map (\<lambda>m. m * hd w) mu)
      else Inl (ValueError ''non-broadcastable output operand''))"

text \<open>
  The bin edges \<open>xe\<close> are a one-dimensional array, as the docstrings require
  (\<open>len(n) + 1\<close> edges). Both binned models have the form \<open>f(xe, *args)\<close>.
\<close>

type_synonym cdf = "npfloat list \<Rightarrow> npfloat list \<Rightarrow> npfloat list"

record BinnedCost = MaskedCost +
  u_xe :: "npfloat list"
  b_model :: cdf

text \<open>
  \<^verbatim>\<open>
  def _weighted(self):
      return self._data.ndim > self._xe.ndim
  \<close>
\<close>

definition weighted :: "BinnedCost \<Rightarrow> bool" where
  "weighted c = (ndim (u_data c) > 1)"

text \<open>\<open>np.column_stack((a, b, c, d))\<close> of four one-dimensional arrays of one length.\<close>

definition column_stack4 ::
  "npfloat list \<Rightarrow> npfloat list \<Rightarrow> npfloat list \<Rightarrow> npfloat list \<Rightarrow> npfloat list list" where
  "column_stack4 a b c d = map (\<lambda>(w, x, y, z). [w, x, y, z]) (zip a (zip b (zip c d)))"

text \<open>
  \<^verbatim>\<open>
  def _prepare_data(self, value):
      assert self._xe is not None

      n = _norm(value)
      xe = self._xe

      if n.ndim == xe.ndim:
          is_weighted = False
      else:
          is_weighted = True
          if n.ndim > xe.ndim + 1 or n.ndim < xe.ndim:
              raise ValueError("n must either have same dimension as xe or one extra")

      if np.any(
          np.array(n.shape[:-1] if is_weighted else n.shape) + 1 != self._xe.shape
      ):
          raise ValueError("n and xe have incompatible shapes")

      if is_weighted:
          if n.shape[-1] != 2:
              raise ValueError("n must have shape (..., 2)")
          # Scale factor from Bohm and Zech, NIMA 748 (2014) 1-6
          v = n[..., 0]
          var = n[..., 1]
          s = v / (var + 1e-323)
          return np.column_stack((v, var, v * s, s))

      return n
  \<close>
\<close>

fun bohm_zech :: "ndarray \<Rightarrow> ndarray" where
  "bohm_zech (A2 k rows) =
     (let v = column 0 rows;
          var = column 1 rows;
          s = map2 (/) v (map (\<lambda>x. x + tiny) var)
      in A2 4 (column_stack4 v var (map2 (*) v s) s))"
| "bohm_zech a = a"

definition prepare_data :: "npfloat list \<Rightarrow> ndarray \<Rightarrow> error + ndarray" where
  "prepare_data xe val =
     (let n = norm_arr val;
          xe_ndim = 1;
          xe_shape = [length xe];
          is_weighted = (ndim n \<noteq> xe_ndim)
      in if is_weighted \<and> (ndim n > xe_ndim + 1 \<or> ndim n < xe_ndim)
         then Inl (ValueError ''n must either have same dimension as xe or one extra'')
         else if list_ex (\<lambda>(a, b). a + 1 \<noteq> b)
                   (zip (if is_weighted then butlast (shape n) else shape n) xe_shape)
         then Inl (ValueError ''n and xe have incompatible shapes'')
         else if is_weighted then
           (if last (shape n) \<noteq> 2 then Inl (ValueError ''n must have shape (..., 2)'')
            else Inr (bohm_zech n))
         else Inr n)"

text \<open>
  \<^verbatim>\<open>
  @property
  def data(self):
      if self._weighted():
          return self._data[:, :2]
      return self._data

  @data.setter
  def data(self, value):
      super(__class__, self.__class__).data.__set__(self, self._prepare_data(value))
  \<close>
\<close>

fun first_two_columns :: "ndarray \<Rightarrow> ndarray" where
  "first_two_columns (A2 k rows) = A2 (min k 2) (map (take 2) rows)"
| "first_two_columns a = a"

definition BinnedCost_data :: "BinnedCost \<Rightarrow> ndarray" where
  "BinnedCost_data c = (if weighted c then first_two_columns (u_data c) else u_data c)"

definition BinnedCost_set_data :: "ndarray \<Rightarrow> BinnedCost \<Rightarrow> error + BinnedCost" where
  "BinnedCost_set_data val c = bind_err (prepare_data (u_xe c) val) (\<lambda>v. set_data v c)"

text \<open>
  \<^verbatim>\<open>
  def __init__(self, n, xe, model, verbose):
      self._xe = _norm(xe)
      self._model = model
      super().__init__(describe(model)[1:], self._prepare_data(n), verbose)
  \<close>
\<close>

definition BinnedCost_init ::
  "ndarray \<Rightarrow> npfloat list \<Rightarrow> cdf \<Rightarrow> string list \<Rightarrow> int \<Rightarrow> error + BinnedCost" where
  "BinnedCost_init n xe model names v =
     bind_err (prepare_data xe n) (\<lambda>d.
       Inr \<lparr>func_code = drop 1 names, verbose = v, u_data = d, u_mask = None,
            u_masked = d, u_xe = xe, b_model = model\<rparr>)"

text \<open>
  \<^verbatim>\<open>
  def _call(self, args):
      cdf = self._model(self._xe, *args)
      cdf = _normalize_model_output(cdf)
      prob = np.diff(cdf)
      n = self._masked
      ma = self.mask
      if ma is not None:
          prob = prob[ma]
          prob /= np.sum(prob)  # normalise probability
      if self._weighted():
          mu = np.sum(n[:, 0]) * prob
          # apply Bohm-Zech scaling, see Bohm and Zech, NIMA 748 (2014) 1-6
          mu *= n[:, 3]
          n = n[:, 2]
      else:
          mu = np.sum(n) * prob
      # + np.sum(mu) is skipped, it is constant since sum(prob) = 1
      return 2.0 * _sum_log_poisson_part(n, mu)
  \<close>
  In the branch for plain counts the view \<open>n\<close> is one-dimensional, like the data it is
  taken from; the other shapes are not reached from a constructed term and end the call.
\<close>

definition BinnedNLL_prob :: "BinnedCost \<Rightarrow> npfloat list \<Rightarrow> error + npfloat list" where
  "BinnedNLL_prob c args =
     (let cdf = b_model c (u_xe c) args;
          prob = np_diff cdf
      in case u_mask c of
           None \<Rightarrow> Inr prob
         | Some ma \<Rightarrow> bind_err (np_take prob ma) (\<lambda>p. Inr (map (\<lambda>x. x / np_sum p) p)))"

definition BinnedNLL_call :: "BinnedCost \<Rightarrow> npfloat list \<Rightarrow> error + npfloat" where
  "BinnedNLL_call c args =
     bind_err (BinnedNLL_prob c args) (\<lambda>prob.
       let n = u_masked c in
       if weighted c then
         bind_err (col 0 n) (\<lambda>n0.
         bind_err (col 3 n) (\<lambda>n3.
         bind_err (imul (map (\<lambda>p. np_sum n0 * p) prob) n3) (\<lambda>mu.
         bind_err (col 2 n) (\<lambda>n2.
         bind_err (sum_log_poisson_part n2 mu) (\<lambda>r. Inr (Fin 2 * r))))))
       else
         (case n of
            A1 ns \<Rightarrow>
              bind_err (sum_log_poisson_part ns (map (\<lambda>p. np_sum ns * p) prob))
                (\<lambda>r. Inr (Fin 2 * r))
          | _ \<Rightarrow> Inl TypeError))"

text \<open>
  \<^verbatim>\<open>
  def _call(self, args):
      scdf = self._model(self._xe, *args)
      scdf = _normalize_model_output(scdf)
      mu = np.diff(scdf)
      ma = self.mask
      n = self._masked
      if ma is not None:
          mu = mu[ma]
      if self._weighted():
          # apply Bohm-Zech scaling, see Bohm and Zech, NIMA 748 (2014) 1-6
          mu *= n[:, 3]
          n = n[:, 2]
      return 2.0 * _sum_log_poisson(n, mu)
  \<close>
\<close>

definition ExtendedBinnedNLL_mu :: "BinnedCost \<Rightarrow> npfloat list \<Rightarrow> error + npfloat list" where
  "ExtendedBinnedNLL_mu c args =
     (let scdf = b_model c (u_xe c) args;
          mu = np_diff scdf
      in case u_mask c of
           None \<Rightarrow> Inr mu
         | Some ma \<Rightarrow> np_take mu ma)"

definition ExtendedBinnedNLL_call :: "BinnedCost \<Rightarrow> npfloat list \<Rightarrow> error + npfloat" where
  "ExtendedBinnedNLL_call c args =
     bind_err (ExtendedBinnedNLL_mu c args) (\<lambda>mu.
       let n = u_masked c in
       if weighted c then
         bind_err (col 3 n) (\<lambda>n3.
         bind_err (imul mu n3) (\<lambda>mu.
         bind_err (col 2 n) (\<lambda>n2.
         bind_err (sum_log_poisson n2 mu) (\<lambda>r. Inr (Fin 2 * r)))))
       else
         (case n of
            A1 ns \<Rightarrow> bind_err (sum_log_poisson ns mu) (\<lambda>r. Inr (Fin 2 * r))
          | _ \<Rightarrow> Inl TypeError))"

section \<open>Least squares\<close>

text \<open>
  \<^verbatim>\<open>
  def _z_squared(y, ye, ym):
      z = (y - ym) / ye
      return z * z

  def _sum_z_squared(y, ye, ym):
      return np.sum(_z_squared(y, ye, ym))

  def _sum_z_squared_soft_l1(y, ye, ym):
      z = _z_squared(y, ye, ym)
      return np.sum(2 * (np.sqrt(1.0 + z) - 1.0))
  \<close>
\<close>

definition z_squared :: "npfloat list \<Rightarrow> npfloat list \<Rightarrow> npfloat list \<Rightarrow> error + npfloat list" where
  "z_squared y ye ym =
     bind_err (broadcast2 (-) y ym) (\<lambda>d.
     bind_err (broadcast2 (/) d ye) (\<lambda>z. Inr (map (\<lambda>v. v * v) z)))"

definition sum_z_squared :: "npfloat list \<Rightarrow> npfloat list \<Rightarrow> npfloat list \<Rightarrow> error + npfloat" where
  "sum_z_squared y ye ym = bind_err (z_squared y ye ym) (\<lambda>z. Inr (np_sum z))"

definition soft_l1 :: "npfloat \<Rightarrow> npfloat" where
  "soft_l1 z = Fin 2 * (np_sqrt (Fin 1 + z) - Fin 1)"

definition sum_z_squared_soft_l1 ::
  "npfloat list \<Rightarrow> npfloat list \<Rightarrow> npfloat list \<Rightarrow> error + npfloat" where
  "sum_z_squared_soft_l1 y ye ym =
     bind_err (z_squared y ye ym) (\<lambda>z. Inr (np_sum (map soft_l1 z)))"

text \<open>
  The loss is a string or a callable on the array of squared residuals. The slot
  \<^verbatim>\<open>_cost\<close> holds the function the loss setter chose.
\<close>

datatype loss = LossName string | LossCallable "npfloat list \<Rightarrow> npfloat list"

type_synonym costfn = "npfloat list \<Rightarrow> npfloat list \<Rightarrow> npfloat list \<Rightarrow> error + npfloat"

type_synonym lsq_model = "ndarray \<Rightarrow> npfloat list \<Rightarrow> npfloat list"

record LeastSquaresCost = MaskedCost +
  ls_loss :: loss
  ls_cost :: costfn
  ls_model :: lsq_model
  ls_ndim :: nat

text \<open>
  \<^verbatim>\<open>
  @loss.setter
  def loss(self, loss: Union[str, Callable]):
      from typing import Callable

      self._loss = loss
      if isinstance(loss, Callable):
          self._cost = lambda y, ye, ym: np.sum(loss(_z_squared(y, ye, ym)))
      elif loss == "linear":
          self._cost = _sum_z_squared
      elif loss == "soft_l1":
          self._cost = _sum_z_squared_soft_l1
      else:
          raise ValueError("unknown loss type: " + loss)
  \<close>
\<close>

fun loss_cost :: "loss \<Rightarrow> error + costfn" where
  "loss_cost (LossCallable f) =
     Inr (\<lambda>y ye ym. bind_err (z_squared y ye ym) (\<lambda>z. Inr (np_sum (f z))))"
| "loss_cost (LossName s) =
     (if s = ''linear'' then Inr sum_z_squared
      else if s = ''soft_l1'' then Inr sum_z_squared_soft_l1
      else Inl (ValueError (''unknown loss type: '' @ s)))"

definition set_loss ::
  "loss \<Rightarrow> 'a LeastSquaresCost_scheme \<Rightarrow> error + 'a LeastSquaresCost_scheme" where
  "set_loss l c = bind_err (loss_cost l) (\<lambda>f. Inr (c\<lparr>ls_loss := l, ls_cost := f\<rparr>))"

text \<open>
  \<open>np.broadcast_arrays\<close> of one-dimensional arrays: every array has the common
  length or length one; \<open>np.column_stack\<close> then makes each array a column.
\<close>

definition common_length :: "nat list \<Rightarrow> nat" where
  "common_length ls = (case filter (\<lambda>l. l \<noteq> 1) ls of [] \<Rightarrow> 1 | l # r \<Rightarrow> l)"

definition broadcast_arrays :: "npfloat list list \<Rightarrow> error + npfloat list list" where
  "broadcast_arrays as =
     (let l = common_length (map length as) in
      if list_all (\<lambda>a. fits (length a) l) as then Inr (map (stretch l) as)
      else Inl (ValueError ''shape mismatch: objects cannot be broadcast to a single shape''))"

definition column_stack :: "nat \<Rightarrow> npfloat list list \<Rightarrow> ndarray" where
  "column_stack l cols = A2 (length cols) (map (\<lambda>i. map (\<lambda>c. c ! i) cols) [0..<l])"

text \<open>
  \<^verbatim>\<open>
  def __init__(self, x, y, yerror, model, loss="linear", verbose=0):
      x = _norm(x)
      y = _norm(y)
      assert x.ndim >= 1  # guaranteed by _norm

      self._ndim = x.ndim
      self._model = model
      self.loss = loss

      x = np.atleast_2d(x)
      data = np.column_stack(np.broadcast_arrays(*x, y, yerror))

      super().__init__(describe(self._model)[1:], data, verbose)
  \<close>
  \<open>y\<close> is a one-dimensional array and \<open>yerror\<close> a float (\<open>Inl\<close>) or a
  one-dimensional array (\<open>Inr\<close>), as the docstring asks.
\<close>

fun atleast_2d_rows :: "ndarray \<Rightarrow> npfloat list list" where
  "atleast_2d_rows (A0 x) = [[x]]"
| "atleast_2d_rows (A1 xs) = [xs]"
| "atleast_2d_rows (A2 k rows) = rows"

definition LeastSquares_init ::
  "ndarray \<Rightarrow> npfloat list \<Rightarrow> npfloat + npfloat list \<Rightarrow> lsq_model \<Rightarrow> loss \<Rightarrow> string list \<Rightarrow> int
   \<Rightarrow> error + LeastSquaresCost" where
  "LeastSquares_init x y yerror model l names v =
     (let x = norm_arr x in
      bind_err (loss_cost l) (\<lambda>f.
      bind_err (broadcast_arrays
                  (atleast_2d_rows x @ [y, case yerror of Inl s \<Rightarrow> [s] | Inr a \<Rightarrow> a])) (\<lambda>cols.
        let d = column_stack (length (hd cols)) cols in
        Inr \<lparr>func_code = drop 1 names, verbose = v, u_data = d, u_mask = None, u_masked = d,
             ls_loss = l, ls_cost = f, ls_model = model, ls_ndim = ndim x\<rparr>)))"

text \<open>
  \<^verbatim>\<open>
  def _call(self, args):
      x = self._masked.T[0] if self._ndim == 1 else self._masked.T[: self._ndim]
      y, yerror = self._masked.T[self._ndim :]
      ym = self._model(x, *args)
      ym = _normalize_model_output(ym)
      return self._cost(y, yerror, ym)
  \<close>
  The data of a LeastSquares term is two-dimensional, and so is the view; \<open>a.T\<close> is
  then the list \<open>t\<close> of the columns. Unpacking into \<open>y, yerror\<close> raises ValueError
  unless exactly two columns remain.
\<close>

definition LeastSquares_call :: "LeastSquaresCost \<Rightarrow> npfloat list \<Rightarrow> error + npfloat" where
  "LeastSquares_call c args =
     (case u_masked c of
        A2 k rows \<Rightarrow>
          (let t = map (\<lambda>j. column j rows) [0..<k] in
           bind_err (if ls_ndim c = 1
                     then (if k = 0 then Inl IndexError else Inr (A1 (hd t)))
                     else Inr (A2 (length rows) (take (ls_ndim c) t))) (\<lambda>x.
             case drop (ls_ndim c) t of
               [y, yerror] \<Rightarrow> ls_cost c y yerror (ls_model c x args)
             | _ \<Rightarrow> Inl (ValueError ''wrong number of values to unpack'')))
      | _ \<Rightarrow> Inl TypeError)"

section \<open>Constant, NormalConstraint and CostSum\<close>

text \<open>
  Of NormalConstraint only the slots and \<open>ndata\<close> are needed here. The model of
  ExtendedUnbinnedNLL returns a pair.
\<close>

record NormalConstraintCost = Cost +
  nc_value :: "npfloat list"
  nc_cov :: ndarray
  nc_covinv :: ndarray

type_synonym scaled_pdf = "ndarray \<Rightarrow> npfloat list \<Rightarrow> npfloat \<times> npfloat list"

text \<open>
  A cost function is an object of one of the concrete classes. A CostSum holds its
  constituents \<^verbatim>\<open>_items\<close>, the index maps \<^verbatim>\<open>_maps\<close>, the merged parameter names
  and its verbosity. A Constant holds its value; its parameter list is empty and its
  verbosity is False.
\<close>

datatype cost =
    Constant npfloat
  | UnbinnedNLL "pdf UnbinnedCost"
  | ExtendedUnbinnedNLL "scaled_pdf UnbinnedCost"
  | BinnedNLL BinnedCost
  | ExtendedBinnedNLL BinnedCost
  | LeastSquares LeastSquaresCost
  | NormalConstraint NormalConstraintCost
  | CostSum "cost list" "nat list list" "string list" int

fun cost_func_code :: "cost \<Rightarrow> string list" where
  "cost_func_code (Constant v) = []"
| "cost_func_code (UnbinnedNLL c) = func_code c"
| "cost_func_code (ExtendedUnbinnedNLL c) = func_code c"
| "cost_func_code (BinnedNLL c) = func_code c"
| "cost_func_code (ExtendedBinnedNLL c) = func_code c"
| "cost_func_code (LeastSquares c) = func_code c"
| "cost_func_code (NormalConstraint c) = func_code c"
| "cost_func_code (CostSum its maps args v) = args"

fun cost_verbose :: "cost \<Rightarrow> int" where
  "cost_verbose (Constant v) = 0"
| "cost_verbose (UnbinnedNLL c) = verbose c"
| "cost_verbose (ExtendedUnbinnedNLL c) = verbose c"
| "cost_verbose (BinnedNLL c) = verbose c"
| "cost_verbose (ExtendedBinnedNLL c) = verbose c"
| "cost_verbose (LeastSquares c) = verbose c"
| "cost_verbose (NormalConstraint c) = verbose c"
| "cost_verbose (CostSum its maps args v) = v"

text \<open>
  \<open>ndata\<close> of each class: 0 for a Constant, \<open>np.inf\<close> for the unbinned classes,
  \<open>len(self._masked)\<close> for the other masked classes, \<open>len(self._value)\<close> for a
  NormalConstraint and, for a CostSum,
  \<^verbatim>\<open>
  return sum(c.ndata for c in self._items)
  \<close>
  Python's \<open>sum\<close> adds from the left, starting at 0.
\<close>

fun py_sum :: "(error + enat) list \<Rightarrow> error + enat \<Rightarrow> error + enat" where
  "py_sum [] acc = acc"
| "py_sum (r # rs) acc = py_sum rs (bind_err acc (\<lambda>a. bind_err r (\<lambda>n. Inr (a + n))))"

definition len_ndata :: "ndarray \<Rightarrow> error + enat" where
  "len_ndata a = bind_err (len a) (\<lambda>n. Inr (enat n))"

fun ndata :: "cost \<Rightarrow> error + enat" where
  "ndata (Constant v) = Inr 0"
| "ndata (UnbinnedNLL c) = Inr \<infinity>"
| "ndata (ExtendedUnbinnedNLL c) = Inr \<infinity>"
| "ndata (BinnedNLL c) = len_ndata (u_masked c)"
| "ndata (ExtendedBinnedNLL c) = len_ndata (u_masked c)"
| "ndata (LeastSquares c) = len_ndata (u_masked c)"
| "ndata (NormalConstraint c) = Inr (enat (length (nc_value c)))"
| "ndata (CostSum its maps args v) = py_sum (map ndata its) (Inr 0)"

text \<open>
  Modelled from the spec: \<^verbatim>\<open>merge_signatures\<close> is imported from
  \<^verbatim>\<open>iminuit/util.py\<close>, whose source does not define it. The specification says: the
  combined list is the first-occurrence-ordered union of each term's names; each index
  map translates a term's local parameter position to its position in the combined
  list; names are matched by exact string equality.
\<close>

fun union_names :: "string list \<Rightarrow> string list \<Rightarrow> string list" where
  "union_names acc [] = acc"
| "union_names acc (n # ns) = union_names (if n \<in> set acc then acc else acc @ [n]) ns"

fun position :: "string \<Rightarrow> string list \<Rightarrow> nat" where
  "position n [] = 0"
| "position n (m # ms) = (if n = m then 0 else Suc (position n ms))"

definition merge_signatures :: "string list list \<Rightarrow> string list \<times> nat list list" where
  "merge_signatures sigs =
     (let args = union_names [] (concat sigs)
      in (args, map (map (\<lambda>n. position n args)) sigs))"

text \<open>
  \<^verbatim>\<open>
  def __init__(self, *items):
      self._items = []
      for item in items:
          if isinstance(item, CostSum):
              self._items += item._items
          elif isinstance(item, (int, float)):
              if item != 0:
                  self._items.append(Constant(item))
          else:
              self._items.append(item)
      args, self._maps = merge_signatures(self._items)
      super().__init__(args, max(c.verbose for c in self._items))
  \<close>
  An item is a plain number or a cost function. \<open>max\<close> of no values raises
  ValueError.
\<close>

datatype item = Number npfloat | Term cost

fun collect_items :: "cost list \<Rightarrow> item list \<Rightarrow> cost list" where
  "collect_items acc [] = acc"
| "collect_items acc (Term (CostSum its maps args v) # r) = collect_items (acc @ its) r"
| "collect_items acc (Number x # r) =
     collect_items (if x \<noteq> Fin 0 then acc @ [Constant x] else acc) r"
| "collect_items acc (Term c # r) = collect_items (acc @ [c]) r"

fun py_max :: "int list \<Rightarrow> error + int" where
  "py_max [] = Inl (ValueError ''max() arg is an empty sequence'')"
| "py_max (v # vs) = Inr (fold max vs v)"

definition CostSum_init :: "item list \<Rightarrow> error + cost" where
  "CostSum_init items =
     (let its = collect_items [] items;
          (args, maps) = merge_signatures (map cost_func_code its)
      in bind_err (py_max (map cost_verbose its)) (\<lambda>v. Inr (CostSum its maps args v)))"

text \<open>
  \<^verbatim>\<open>
  def __add__(self, rhs):
      return CostSum(self, rhs)

  def __radd__(self, lhs):
      return CostSum(lhs, self)

  def __len__(self):
      return self._items.__len__()
  \<close>
\<close>

definition cost_add :: "cost \<Rightarrow> item \<Rightarrow> error + cost" where
  "cost_add self rhs = CostSum_init [Term self, rhs]"

definition cost_radd :: "cost \<Rightarrow> item \<Rightarrow> error + cost" where
  "cost_radd self lhs = CostSum_init [lhs, Term self]"

fun CostSum_len :: "cost \<Rightarrow> error + nat" where
  "CostSum_len (CostSum its maps args v) = Inr (length its)"
| "CostSum_len c = Inl TypeError"

text \<open>The slot \<^verbatim>\<open>_items\<close> of a CostSum, which \<open>__getitem__\<close> reads.\<close>

fun CostSum_items :: "cost \<Rightarrow> cost list" where
  "CostSum_items (CostSum its maps args v) = its"
| "CostSum_items c = []"

section \<open>Notions used in the properties\<close>

text \<open>
  A masked term is consistent when the stored view is what the stored data and mask
  select.
\<close>

definition consistent :: "'a MaskedCost_scheme \<Rightarrow> bool" where
  "consistent c = (masked_view (u_data c) (u_mask c) = Inr (u_masked c))"

fun is_finite :: "npfloat \<Rightarrow> bool" where
  "is_finite (Fin r) = True"
| "is_finite x = False"

fun nonneg :: "npfloat \<Rightarrow> bool" where
  "nonneg (Fin r) = (0 \<le> r)"
| "nonneg x = False"

text \<open>
  The shape of the stored contents of a binned term: plain counts, one per bin, or four
  columns per bin. A binned term is in order when, moreover, its view is consistent.
\<close>

fun binned_shape :: "npfloat list \<Rightarrow> ndarray \<Rightarrow> bool" where
  "binned_shape xe (A1 ns) = (length ns + 1 = length xe)"
| "binned_shape xe (A2 k rows) =
     (k = 4 \<and> length rows + 1 = length xe \<and> list_all (\<lambda>r. length r = 4) rows)"
| "binned_shape xe (A0 x) = False"

definition binned_inv :: "BinnedCost \<Rightarrow> bool" where
  "binned_inv c = (consistent c \<and> binned_shape (u_xe c) (u_data c))"

text \<open>
  The four stored columns of one weighted bin \<open>(v, var)\<close>: the two inputs, the
  effective count \<open>v * s\<close> and the scale \<open>s = v / (var + 1e-323)\<close>.
\<close>

definition bz_row :: "npfloat list \<Rightarrow> npfloat list" where
  "bz_row r = [r ! 0, r ! 1, r ! 0 * (r ! 0 / (r ! 1 + tiny)), r ! 0 / (r ! 1 + tiny)]"

text \<open>
  A least-squares term is in order when its view is consistent and the slot
  \<^verbatim>\<open>_cost\<close> is the function the loss setter chooses for the stored loss.
\<close>

definition lsq_inv :: "LeastSquaresCost \<Rightarrow> bool" where
  "lsq_inv c = (consistent c \<and> loss_cost (ls_loss c) = Inr (ls_cost c))"

text \<open>What one argument of the CostSum constructor adds to \<^verbatim>\<open>_items\<close>.\<close>

fun item_terms :: "item \<Rightarrow> cost list" where
  "item_terms (Term (CostSum its maps args v)) = its"
| "item_terms (Number x) = (if x \<noteq> Fin 0 then [Constant x] else [])"
| "item_terms (Term c) = [c]"

fun is_unbinned :: "cost \<Rightarrow> bool" where
  "is_unbinned (UnbinnedNLL c) = True"
| "is_unbinned (ExtendedUnbinnedNLL c) = True"
| "is_unbinned c = False"

subsection \<open>Formulas in the words of the specification\<close>

text \<open>
  The cost of UnbinnedNLL for a model that returns \<open>log(f)\<close> directly, as the
  specification writes it for the density values \<open>x\<close>: \<open>-2 * sum(log(x))\<close>.
\<close>

definition spec_unbinned_log_cost :: "npfloat list \<Rightarrow> npfloat" where
  "spec_unbinned_log_cost x = Fin (- 2) * np_sum (map np_log x)"

text \<open>
  The cost formulas of the specification for the binned likelihoods, without the guard:
  \<open>2 * sum(n * (log(n) - log(mu)))\<close> and \<open>2 * sum(mu - n + n * (log(n) - log(mu)))\<close>.
\<close>

definition spec_binned_cost :: "npfloat list \<Rightarrow> npfloat list \<Rightarrow> npfloat" where
  "spec_binned_cost n mu = Fin 2 * np_sum (map2 (\<lambda>a m. a * (np_log a - np_log m)) n mu)"

definition spec_extended_binned_cost :: "npfloat list \<Rightarrow> npfloat list \<Rightarrow> npfloat" where
  "spec_extended_binned_cost n mu =
     Fin 2 * np_sum (map2 (\<lambda>a m. m - a + a * (np_log a - np_log m)) n mu)"

text \<open>
  Valid bin contents, in the words of the specification: the shape is compatible with
  the bin edges (one entry per bin, so one less than there are edges), and a weighted
  array has trailing dimension 2.
\<close>

definition valid_contents :: "npfloat list \<Rightarrow> ndarray \<Rightarrow> bool" where
  "valid_contents xe n =
     (case norm_arr n of
        A0 x \<Rightarrow> False
      | A1 ns \<Rightarrow> length ns + 1 = length xe
      | A2 k rows \<Rightarrow> length rows + 1 = length xe \<and> k = 2)"

section \<open>Models and terms used as examples\<close>

text \<open>
  Two models of UnbinnedNLL: \<open>pdf_zero_one\<close> returns the density values \<open>[0, 1]\<close>, and
  \<open>pdf_const_one\<close>, used with \<open>log = True\<close>, returns the log-density \<open>1 = log(e)\<close>.
\<close>

fun pdf_const_one :: pdf where
  "pdf_const_one d args = [Fin 1]"

fun pdf_zero_one :: pdf where
  "pdf_zero_one d args = [Fin 0, Fin 1]"

fun cdf_uniform :: cdf where
  "cdf_uniform xe args = [Fin 0, Fin (1 / 2), Fin 1]"

fun cdf_step :: cdf where
  "cdf_step xe args = [Fin 0, Fin 1, Fin 1]"

fun cdf_thirds :: cdf where
  "cdf_thirds xe args = [Fin 0, Fin (1 / 3), Fin (2 / 3), Fin 1]"

text \<open>A least-squares model: a line through the origin with slope \<open>args[0]\<close>.\<close>

fun lsq_line :: lsq_model where
  "lsq_line (A1 xs) args = map (\<lambda>v. hd args * v) xs"
| "lsq_line a args = []"

text \<open>
  A multivariate least-squares model: for \<open>x\<close> of shape \<open>(D, N)\<close> the value at point
  \<open>i\<close> is \<open>sum(args[d] * x[d][i])\<close> over the variables \<open>d\<close>.
\<close>

fun lsq_plane :: lsq_model where
  "lsq_plane (A2 n vars) args =
     map (\<lambda>i. np_sum (map2 (*) args (map (\<lambda>v. v ! i) vars))) [0..<n]"
| "lsq_plane a args = []"

definition ex_masked :: MaskedCost where
  "ex_masked = MaskedCost_init [''a''] (A1 [Fin 1, Fin 2, Fin 3]) 0"

definition ex_unbinned :: "pdf UnbinnedCost" where
  "ex_unbinned = UnbinnedCost_init (A1 [Fin 1, Fin 2]) pdf_zero_one [''x'', ''a''] 0 False"

definition ex_unbinned_log :: "pdf UnbinnedCost" where
  "ex_unbinned_log = UnbinnedCost_init (A1 [Fin 1]) pdf_const_one [''x'', ''a''] 0 True"

definition ex_constraint :: NormalConstraintCost where
  "ex_constraint =
     \<lparr>func_code = [''a'', ''b''], verbose = 0, nc_value = [Fin 1, Fin 2],
      nc_cov = A1 [Fin 1, Fin 4], nc_covinv = A1 [Fin 1, Fin (1 / 4)]\<rparr>"

text \<open>
  Binned terms, written as the records that the constructor and the mask setter return
  (the lemmas \<open>ex_binned_step_init\<close>, \<open>ex_binned_init\<close>, \<open>ex_binned_masked_set\<close> and
  \<open>ex_weighted_init\<close> below).
\<close>

definition ex_binned_step :: BinnedCost where
  "ex_binned_step =
     \<lparr>func_code = [], verbose = 0, u_data = A1 [Fin 1, Fin 1], u_mask = None,
      u_masked = A1 [Fin 1, Fin 1], u_xe = [Fin 0, Fin 1, Fin 2], b_model = cdf_step\<rparr>"

definition ex_binned :: BinnedCost where
  "ex_binned =
     \<lparr>func_code = [], verbose = 0, u_data = A1 [Fin 1, Fin 3, Fin 5], u_mask = None,
      u_masked = A1 [Fin 1, Fin 3, Fin 5], u_xe = [Fin 0, Fin 1, Fin 2, Fin 3],
      b_model = cdf_thirds\<rparr>"

definition ex_binned_masked :: BinnedCost where
  "ex_binned_masked =
     ex_binned\<lparr>u_mask := Some (BoolMask [True, True, False]), u_masked := A1 [Fin 1, Fin 3]\<rparr>"

definition ex_weighted_data :: ndarray where
  "ex_weighted_data = bohm_zech (A2 2 [[Fin 10, Fin 4], [Fin 20, Fin 9]])"

definition ex_weighted :: BinnedCost where
  "ex_weighted =
     \<lparr>func_code = [], verbose = 0, u_data = ex_weighted_data, u_mask = None,
      u_masked = ex_weighted_data, u_xe = [Fin 0, Fin 1, Fin 2], b_model = cdf_uniform\<rparr>"

text \<open>
  Least-squares terms for \<open>x = [1, 2]\<close>, \<open>y = [2, 4]\<close>, \<open>yerror = 1\<close> (the lemmas
  \<open>ex_lsq_init\<close> and \<open>ex_lsq_soft_set\<close> below).
\<close>

definition ex_lsq :: LeastSquaresCost where
  "ex_lsq =
     \<lparr>func_code = [''a''], verbose = 0,
      u_data = A2 3 [[Fin 1, Fin 2, Fin 1], [Fin 2, Fin 4, Fin 1]], u_mask = None,
      u_masked = A2 3 [[Fin 1, Fin 2, Fin 1], [Fin 2, Fin 4, Fin 1]],
      ls_loss = LossName ''linear'', ls_cost = sum_z_squared, ls_model = lsq_line, ls_ndim = 1\<rparr>"

definition ex_lsq_soft :: LeastSquaresCost where
  "ex_lsq_soft = ex_lsq\<lparr>ls_loss := LossName ''soft_l1'', ls_cost := sum_z_squared_soft_l1\<rparr>"

text \<open>
  Least-squares terms for multivariate \<open>x\<close>: of shape \<open>(3, 2)\<close> with \<open>y = [1, 2]\<close>, and
  of shape \<open>(2, 2)\<close> with \<open>y = [4, 7]\<close>, both with \<open>yerror = 1\<close> (the lemmas
  \<open>ex_lsq_3d_init\<close> and \<open>ex_lsq_2d_init\<close> below).
\<close>

definition ex_lsq_3d :: LeastSquaresCost where
  "ex_lsq_3d =
     \<lparr>func_code = [''a'', ''b'', ''c''], verbose = 0,
      u_data = A2 5 [[Fin 1, Fin 3, Fin 5, Fin 1, Fin 1], [Fin 2, Fin 4, Fin 6, Fin 2, Fin 1]],
      u_mask = None,
      u_masked = A2 5 [[Fin 1, Fin 3, Fin 5, Fin 1, Fin 1], [Fin 2, Fin 4, Fin 6, Fin 2, Fin 1]],
      ls_loss = LossName ''linear'', ls_cost = sum_z_squared, ls_model = lsq_plane, ls_ndim = 2\<rparr>"

definition ex_lsq_2d :: LeastSquaresCost where
  "ex_lsq_2d =
     \<lparr>func_code = [''a'', ''b''], verbose = 0,
      u_data = A2 4 [[Fin 1, Fin 3, Fin 4, Fin 1], [Fin 2, Fin 4, Fin 7, Fin 1]],
      u_mask = None,
      u_masked = A2 4 [[Fin 1, Fin 3, Fin 4, Fin 1], [Fin 2, Fin 4, Fin 7, Fin 1]],
      ls_loss = LossName ''linear'', ls_cost = sum_z_squared, ls_model = lsq_plane, ls_ndim = 2\<rparr>"

section \<open>Properties\<close>

lemma bind_err_simps [simp]:
  "bind_err (Inl e) k = Inl e"
  "bind_err (Inr v) k = k v"
  by (simp_all add: bind_err_def)

lemma tiny_val_pos: "0 < tiny_val"
  by (simp add: tiny_val_def)

lemma log_guard_finite: "nonneg v \<Longrightarrow> is_finite (np_log (v + tiny))"
  using tiny_val_pos by (cases v) (auto simp: tiny_def add_nonneg_pos)

lemma np_sum_finite: "list_all is_finite xs \<Longrightarrow> is_finite (np_sum xs)"
proof (induction xs)
  case Nil
  then show ?case by simp
next
  case (Cons x xs)
  then obtain a b where "x = Fin a" "np_sum xs = Fin b"
    by (cases x; cases "np_sum xs") auto
  then show ?case by simp
qed

lemma sum_log_x_finite: "list_all nonneg x \<Longrightarrow> is_finite (sum_log_x x)"
  unfolding sum_log_x_def
  by (rule np_sum_finite) (simp add: list_all_iff log_guard_finite)

lemma times_finite: "is_finite y \<Longrightarrow> is_finite (Fin a * y)"
  by (cases y) auto

text \<open>
  C2. A call of UnbinnedNLL on a consistent term evaluates the model on the active data
  points \<open>data[mask]\<close>. With \<open>log = False\<close> it returns \<open>-2 * sum(log(f + 1e-323))\<close>
  over the density values \<open>f\<close> that the model returns, and this is a finite number
  whenever every density value is a finite number \<open>\<ge> 0\<close>, zero included. With
  \<open>log = True\<close> the cost is \<open>-2\<close> times the sum of the model's output, taken as it
  is: no exponential, logarithm or guard is applied to it. So when the model returns the
  logarithms \<open>log(x)\<close> of density values \<open>x\<close>, the cost is \<open>-2 * sum(log(x))\<close>.
\<close>

theorem UnbinnedNLL_call_cost:
  assumes "consistent c"
  shows "\<exists>a. masked_view (u_data c) (u_mask c) = Inr a \<and>
           (\<not> u_log c \<longrightarrow>
              UnbinnedNLL_call c args =
                Fin (- 2) * np_sum (map (\<lambda>v. np_log (v + tiny)) (u_model c a args))) \<and>
           (\<not> u_log c \<and> list_all nonneg (u_model c a args)
              \<longrightarrow> is_finite (UnbinnedNLL_call c args)) \<and>
           (u_log c \<longrightarrow> UnbinnedNLL_call c args = Fin (- 2) * np_sum (u_model c a args)) \<and>
           (u_log c \<and> u_model c a args = map np_log x
              \<longrightarrow> UnbinnedNLL_call c args = spec_unbinned_log_cost x)"
proof -
  from assms have v: "masked_view (u_data c) (u_mask c) = Inr (u_masked c)"
    by (simp add: consistent_def)
  have plain: "UnbinnedNLL_call c args =
      Fin (- 2) * np_sum (map (\<lambda>v. np_log (v + tiny)) (u_model c (u_masked c) args))"
    if "\<not> u_log c"
    using that by (simp add: UnbinnedNLL_call_def sum_log_x_def)
  have fin: "is_finite (UnbinnedNLL_call c args)"
    if "\<not> u_log c" "list_all nonneg (u_model c (u_masked c) args)"
    using that by (simp add: UnbinnedNLL_call_def times_finite sum_log_x_finite)
  have lg: "UnbinnedNLL_call c args = Fin (- 2) * np_sum (u_model c (u_masked c) args)"
    if "u_log c"
    using that by (simp add: UnbinnedNLL_call_def)
  have dens: "UnbinnedNLL_call c args = spec_unbinned_log_cost x"
    if "u_log c" "u_model c (u_masked c) args = map np_log x"
    using that by (simp add: UnbinnedNLL_call_def spec_unbinned_log_cost_def)
  from v plain fin lg dens show ?thesis by auto
qed

lemma UnbinnedCost_init_consistent: "consistent (UnbinnedCost_init d model names vb lg)"
  by (simp add: consistent_def UnbinnedCost_init_def masked_view_def)

theorem UnbinnedNLL_call_cost_witness:
  "consistent ex_unbinned \<and>
   UnbinnedNLL_call ex_unbinned [Fin 0] =
     Fin (- 2) * np_sum [np_log (Fin 0 + tiny), np_log (Fin 1 + tiny)] \<and>
   is_finite (UnbinnedNLL_call ex_unbinned [Fin 0]) \<and>
   consistent ex_unbinned_log \<and>
   UnbinnedNLL_call ex_unbinned_log [Fin 0] = Fin (- 2) \<and>
   UnbinnedNLL_call ex_unbinned_log [Fin 0] = spec_unbinned_log_cost [Fin (exp 1)]"
proof -
  have c1: "consistent ex_unbinned" and c2: "consistent ex_unbinned_log"
    by (simp_all add: ex_unbinned_def ex_unbinned_log_def UnbinnedCost_init_consistent)
  from UnbinnedNLL_call_cost[OF c1, of "[Fin 0]"]
  have 1: "UnbinnedNLL_call ex_unbinned [Fin 0] =
        Fin (- 2) * np_sum [np_log (Fin 0 + tiny), np_log (Fin 1 + tiny)] \<and>
      is_finite (UnbinnedNLL_call ex_unbinned [Fin 0])"
    by (auto simp: ex_unbinned_def UnbinnedCost_init_def masked_view_def)
  from UnbinnedNLL_call_cost[OF c2, of "[Fin 0]" "[Fin (exp 1)]"]
  have 2: "UnbinnedNLL_call ex_unbinned_log [Fin 0] = Fin (- 2) \<and>
      UnbinnedNLL_call ex_unbinned_log [Fin 0] = spec_unbinned_log_cost [Fin (exp 1)]"
    by (auto simp: ex_unbinned_log_def UnbinnedCost_init_def masked_view_def)
  from c1 c2 1 2 show ?thesis by blast
qed

subsection \<open>CostSum: constituents and ndata\<close>

lemma collect_items_step: "collect_items acc (i # r) = collect_items (acc @ item_terms i) r"
proof (cases i)
  case (Number x)
  then show ?thesis by simp
next
  case (Term c)
  then show ?thesis by (cases c) simp_all
qed

lemma collect_items_concat: "collect_items acc its = acc @ concat (map item_terms its)"
proof (induction its arbitrary: acc)
  case Nil
  then show ?case by simp
next
  case (Cons i r)
  show ?case unfolding collect_items_step Cons.IH by simp
qed

lemma CostSum_init_items:
  assumes "CostSum_init items = Inr s"
  shows "CostSum_items s = collect_items [] items"
  using assms
  by (auto simp: CostSum_init_def Let_def bind_err_def split: prod.splits sum.splits)

lemma CostSum_init_nonempty:
  assumes "collect_items [] items \<noteq> []"
  shows "\<exists>s. CostSum_init items = Inr s"
proof -
  from assms obtain v vs where "map cost_verbose (collect_items [] items) = v # vs"
    by (cases "collect_items [] items") auto
  then show ?thesis
    by (simp add: CostSum_init_def Let_def split: prod.splits)
qed

lemma CostSum_init_len:
  assumes "CostSum_init items = Inr s"
  shows "CostSum_len s = Inr (length (collect_items [] items))"
  using assms
  by (auto simp: CostSum_init_def Let_def bind_err_def split: prod.splits sum.splits)

text \<open>
  C3 (amended). Let \<open>c\<close> be a cost function and \<open>CostSum(c)\<close> the sum of \<open>c\<close> alone.
  Adding a Constant object to \<open>c\<close> appends it to the constituents, whatever its value,
  zero included: the list grows by one. Adding a plain number \<open>x \<noteq> 0\<close>, on the right
  or on the left, puts \<open>Constant(x)\<close> at that end of the constituents; adding the plain
  number 0 leaves the constituents of \<open>CostSum(c)\<close> as they are.
\<close>

theorem CostSum_add_constant:
  assumes "CostSum_init [Term c] = Inr s0"
  shows "(\<exists>s. cost_add c (Term (Constant v)) = Inr s \<and>
              CostSum_items s = CostSum_items s0 @ [Constant v] \<and>
              CostSum_len s = Inr (length (CostSum_items s0) + 1)) \<and>
         (x \<noteq> Fin 0 \<longrightarrow>
            (\<exists>s. cost_add c (Number x) = Inr s \<and>
                 CostSum_items s = CostSum_items s0 @ [Constant x] \<and>
                 CostSum_len s = Inr (length (CostSum_items s0) + 1)) \<and>
            (\<exists>s. cost_radd c (Number x) = Inr s \<and>
                 CostSum_items s = Constant x # CostSum_items s0 \<and>
                 CostSum_len s = Inr (length (CostSum_items s0) + 1))) \<and>
         (\<exists>s. cost_add c (Number (Fin 0)) = Inr s \<and>
              CostSum_items s = CostSum_items s0 \<and>
              CostSum_len s = Inr (length (CostSum_items s0))) \<and>
         (\<exists>s. cost_radd c (Number (Fin 0)) = Inr s \<and>
              CostSum_items s = CostSum_items s0 \<and>
              CostSum_len s = Inr (length (CostSum_items s0))) \<and>
         CostSum_len s0 = Inr (length (CostSum_items s0))"
proof -
  have its0: "CostSum_items s0 = item_terms (Term c)"
    using CostSum_init_items[OF assms] by (simp add: collect_items_concat)
  have ne: "item_terms (Term c) \<noteq> []"
  proof
    assume "item_terms (Term c) = []"
    then have "collect_items [] [Term c] = []" by (simp add: collect_items_concat)
    with assms show False by (simp add: CostSum_init_def Let_def split: prod.splits)
  qed
  have add: "\<exists>s. cost_add c i = Inr s \<and>
                 CostSum_items s = CostSum_items s0 @ item_terms i \<and>
                 CostSum_len s = Inr (length (CostSum_items s0) + length (item_terms i))" for i
  proof -
    have c: "collect_items [] [Term c, i] = item_terms (Term c) @ item_terms i"
      by (simp add: collect_items_concat)
    with ne have "collect_items [] [Term c, i] \<noteq> []" by simp
    from CostSum_init_nonempty[OF this] obtain s where s: "CostSum_init [Term c, i] = Inr s"
      by blast
    from CostSum_init_items[OF s] CostSum_init_len[OF s] s c its0 show ?thesis
      by (auto simp: cost_add_def)
  qed
  have radd: "\<exists>s. cost_radd c i = Inr s \<and>
                 CostSum_items s = item_terms i @ CostSum_items s0 \<and>
                 CostSum_len s = Inr (length (CostSum_items s0) + length (item_terms i))" for i
  proof -
    have c: "collect_items [] [i, Term c] = item_terms i @ item_terms (Term c)"
      by (simp add: collect_items_concat)
    with ne have "collect_items [] [i, Term c] \<noteq> []" by simp
    from CostSum_init_nonempty[OF this] obtain s where s: "CostSum_init [i, Term c] = Inr s"
      by blast
    from CostSum_init_items[OF s] CostSum_init_len[OF s] s c its0 show ?thesis
      by (auto simp: cost_radd_def)
  qed
  from add[of "Term (Constant v)"] have 1:
    "\<exists>s. cost_add c (Term (Constant v)) = Inr s \<and>
         CostSum_items s = CostSum_items s0 @ [Constant v] \<and>
         CostSum_len s = Inr (length (CostSum_items s0) + 1)" by simp
  from add[of "Number x"] have 2:
    "\<exists>s. cost_add c (Number x) = Inr s \<and>
         CostSum_items s = CostSum_items s0 @ [Constant x] \<and>
         CostSum_len s = Inr (length (CostSum_items s0) + 1)" if "x \<noteq> Fin 0"
    using that by simp
  from radd[of "Number x"] have 3:
    "\<exists>s. cost_radd c (Number x) = Inr s \<and>
         CostSum_items s = Constant x # CostSum_items s0 \<and>
         CostSum_len s = Inr (length (CostSum_items s0) + 1)" if "x \<noteq> Fin 0"
    using that by simp
  from add[of "Number (Fin 0)"] have 4:
    "\<exists>s. cost_add c (Number (Fin 0)) = Inr s \<and>
         CostSum_items s = CostSum_items s0 \<and>
         CostSum_len s = Inr (length (CostSum_items s0))" by simp
  from radd[of "Number (Fin 0)"] have 5:
    "\<exists>s. cost_radd c (Number (Fin 0)) = Inr s \<and>
         CostSum_items s = CostSum_items s0 \<and>
         CostSum_len s = Inr (length (CostSum_items s0))" by simp
  have 6: "CostSum_len s0 = Inr (length (CostSum_items s0))"
    using CostSum_init_len[OF assms] CostSum_init_items[OF assms] by simp
  from 1 2 3 4 5 6 show ?thesis by blast
qed

theorem CostSum_add_constant_witness:
  "(\<exists>s. cost_add (Constant (Fin 1)) (Term (Constant (Fin 0))) = Inr s \<and>
        CostSum_items s = [Constant (Fin 1), Constant (Fin 0)] \<and> CostSum_len s = Inr 2) \<and>
   (\<exists>s. cost_add (Constant (Fin 1)) (Number (Fin 3)) = Inr s \<and>
        CostSum_items s = [Constant (Fin 1), Constant (Fin 3)]) \<and>
   (\<exists>s. cost_radd (Constant (Fin 1)) (Number (Fin 3)) = Inr s \<and>
        CostSum_items s = [Constant (Fin 3), Constant (Fin 1)]) \<and>
   (\<exists>s. cost_add (Constant (Fin 1)) (Number (Fin 0)) = Inr s \<and>
        CostSum_items s = [Constant (Fin 1)] \<and> CostSum_len s = Inr 1)"
proof -
  have init: "CostSum_init [Term (Constant (Fin 1))] = Inr (CostSum [Constant (Fin 1)] [[]] [] 0)"
    by (simp add: CostSum_init_def merge_signatures_def)
  from CostSum_add_constant[OF init, of "Fin 0" "Fin 3"] show ?thesis
    by (auto simp: numeral_2_eq_2)
qed

text \<open>
  C3 as stated fails: \<open>Constant(1) + Constant(0)\<close> has two constituents,
  \<open>CostSum(Constant(1))\<close> has one.
\<close>

theorem CostSum_add_constant_zero_counterexample:
  "bind_err (cost_add (Constant (Fin 1)) (Term (Constant (Fin 0)))) CostSum_len
     \<noteq> bind_err (CostSum_init [Term (Constant (Fin 1))]) CostSum_len"
  by (simp add: cost_add_def CostSum_init_def merge_signatures_def)

lemma py_sum_acc_err: "py_sum rs (Inl e) = Inl e"
  by (induction rs) auto

lemma py_sum_all_ok:
  "py_sum (map Inr ns) (Inr a) = Inr (a + sum_list ns)"
  by (induction ns arbitrary: a) (auto simp: add.assoc)

lemma py_sum_Inr:
  "py_sum rs (Inr a) = Inr n \<Longrightarrow> \<exists>ns. rs = map Inr ns \<and> n = a + sum_list ns"
proof (induction rs arbitrary: a)
  case Nil
  then show ?case by simp
next
  case (Cons r rs)
  show ?case
  proof (cases r)
    case (Inl e)
    with Cons.prems show ?thesis by (simp add: py_sum_acc_err)
  next
    case (Inr m)
    with Cons.prems have "py_sum rs (Inr (a + m)) = Inr n" by simp
    from Cons.IH[OF this] obtain ns where "rs = map Inr ns" "n = a + m + sum_list ns"
      by blast
    with Inr have "r # rs = map Inr (m # ns) \<and> n = a + sum_list (m # ns)"
      by (simp add: add.assoc)
    then show ?thesis by (rule exI[of _ "m # ns"])
  qed
qed

lemma sum_list_enat_infinity: "\<infinity> \<in> set ns \<Longrightarrow> sum_list ns = (\<infinity>::enat)"
  by (induction ns) auto

lemma is_unbinned_ndata: "is_unbinned c \<Longrightarrow> ndata c = Inr \<infinity>"
  by (cases c) auto

lemma unbinned_sum_infinite:
  assumes "map ndata its = map Inr ms" "list_ex is_unbinned its"
  shows "sum_list ms = \<infinity>"
proof -
  from assms(2) obtain c where c: "c \<in> set its" "is_unbinned c"
    by (auto simp: list_ex_iff)
  then have "Inr \<infinity> \<in> set (map ndata its)"
    using is_unbinned_ndata[OF c(2)] by force
  with assms(1) have "\<infinity> \<in> set ms" by auto
  then show ?thesis by (rule sum_list_enat_infinity)
qed

lemma py_sum_append:
  "py_sum (rs @ ts) acc = py_sum ts (py_sum rs acc)"
  by (induction rs arbitrary: acc) auto

text \<open>
  C4. A CostSum built by the constructor holds the flattened arguments as its
  constituents, and its \<open>ndata\<close> is the sum of their \<open>ndata\<close>, whenever each of these
  is defined. An unbinned constituent has \<open>ndata = inf\<close>, and then so has the sum.
\<close>

theorem CostSum_ndata_is_sum:
  assumes "CostSum_init items = Inr s"
    and "map ndata (CostSum_items s) = map Inr ms"
  shows "CostSum_items s = collect_items [] items \<and>
         ndata s = py_sum (map ndata (CostSum_items s)) (Inr 0) \<and>
         ndata s = Inr (sum_list ms) \<and>
         (list_all (\<lambda>c. is_unbinned c \<longrightarrow> ndata c = Inr \<infinity>) (CostSum_items s)) \<and>
         (list_ex is_unbinned (CostSum_items s) \<longrightarrow> ndata s = Inr \<infinity>)"
proof -
  have its: "CostSum_items s = collect_items [] items"
    by (rule CostSum_init_items[OF assms(1)])
  have 1: "ndata s = py_sum (map ndata (CostSum_items s)) (Inr 0)"
    using assms(1)
    by (auto simp: CostSum_init_def Let_def bind_err_def split: prod.splits sum.splits)
  have 2: "ndata s = Inr (sum_list ms)"
    unfolding 1 assms(2) by (simp add: py_sum_all_ok)
  have 3: "ndata s = Inr \<infinity>" if "list_ex is_unbinned (CostSum_items s)"
    using 2 unbinned_sum_infinite[OF assms(2) that] by simp
  have 4: "list_all (\<lambda>c. is_unbinned c \<longrightarrow> ndata c = Inr \<infinity>) (CostSum_items s)"
    by (simp add: list_all_iff is_unbinned_ndata)
  from its 1 2 3 4 show ?thesis by blast
qed

theorem CostSum_ndata_is_sum_witness:
  "\<exists>s. CostSum_init [Term (Constant (Fin 1)), Term (UnbinnedNLL ex_unbinned),
                      Term (NormalConstraint ex_constraint)] = Inr s \<and>
       CostSum_items s = [Constant (Fin 1), UnbinnedNLL ex_unbinned, NormalConstraint ex_constraint] \<and>
       list_ex is_unbinned (CostSum_items s) \<and>
       ndata s = Inr \<infinity>"
proof -
  let ?items = "[Term (Constant (Fin 1)), Term (UnbinnedNLL ex_unbinned),
                 Term (NormalConstraint ex_constraint)]"
  have "collect_items [] ?items \<noteq> []" by simp
  from CostSum_init_nonempty[OF this] obtain s where s: "CostSum_init ?items = Inr s"
    by blast
  have its: "CostSum_items s =
      [Constant (Fin 1), UnbinnedNLL ex_unbinned, NormalConstraint ex_constraint]"
    using CostSum_init_items[OF s] by simp
  have nd: "map ndata (CostSum_items s) = map Inr [0, \<infinity>, enat (length (nc_value ex_constraint))]"
    unfolding its by simp
  from CostSum_ndata_is_sum[OF s nd] s its show ?thesis by simp
qed

subsection \<open>MaskedCost: the view follows data and mask\<close>

lemma length_filter_zip_snd:
  "length xs = length bs \<Longrightarrow> length (filter snd (zip xs bs)) = length (filter id bs)"
  by (induction xs bs rule: list_induct2) auto

lemma np_take_bool_length:
  "np_take xs (BoolMask bs) = Inr v \<Longrightarrow> length v = length (filter id bs)"
  by (auto simp: length_filter_zip_snd split: if_splits)

lemma np_take_index_length:
  "np_take xs (IndexMask js) = Inr v \<Longrightarrow> length v = length js"
  by (auto simp: Let_def split: if_splits)

lemma np_take_bool_ok:
  "length bs = length xs \<Longrightarrow> \<exists>v. np_take xs (BoolMask bs) = Inr v"
  by simp

lemma getitem_len_bool:
  "getitem d (BoolMask bs) = Inr a \<Longrightarrow> len a = Inr (length (filter id bs))"
  by (cases d) (auto simp: bind_err_def length_filter_zip_snd split: sum.splits if_splits)

lemma getitem_len_index:
  "getitem d (IndexMask js) = Inr a \<Longrightarrow> len a = Inr (length js)"
  by (cases d) (auto simp: bind_err_def Let_def split: sum.splits if_splits)

lemma getitem_bool_ok:
  "len d = Inr (length bs) \<Longrightarrow> \<exists>a. getitem d (BoolMask bs) = Inr a"
  by (cases d) auto

lemma update_masked_consistent:
  "update_masked c = Inr c' \<Longrightarrow> consistent c' \<and> u_mask c' = u_mask c \<and> u_data c' = u_data c"
  by (auto simp: update_masked_def consistent_def bind_err_def split: sum.splits)

lemma set_mask_consistent:
  "set_mask m c = Inr c' \<Longrightarrow> consistent c' \<and> u_mask c' = m \<and> u_data c' = u_data c"
  unfolding set_mask_def by (drule update_masked_consistent) simp

lemma set_data_consistent:
  "set_data v c = Inr c' \<Longrightarrow>
     consistent c' \<and> u_mask c' = u_mask c \<and> assign_all (u_data c) v = Inr (u_data c')"
  unfolding set_data_def
  by (cases "assign_all (u_data c) v") (auto dest: update_masked_consistent)

lemma MaskedCost_init_consistent: "consistent (MaskedCost_init args d vb)"
  by (simp add: consistent_def MaskedCost_init_def masked_view_def)

lemma set_mask_None: "set_mask None c = Inr (c\<lparr>u_mask := None, u_masked := u_data c\<rparr>)"
  by (simp add: set_mask_def update_masked_def masked_view_def)

lemma set_mask_Some:
  "set_mask (Some k) c = Inr c' \<Longrightarrow> getitem (u_data c) k = Inr (u_masked c')"
  by (auto simp: set_mask_def update_masked_def masked_view_def bind_err_def split: sum.splits)

lemma set_mask_Some_ok:
  "getitem (u_data c) k = Inr a \<Longrightarrow> set_mask (Some k) c = Inr (c\<lparr>u_mask := Some k, u_masked := a\<rparr>)"
  by (simp add: set_mask_def update_masked_def masked_view_def)

lemma prepare_data_ndim: "prepare_data xe val = Inr d \<Longrightarrow> d \<noteq> A0 x"
  by (cases val)
     (auto simp: prepare_data_def Let_def ndim_def column_stack4_def split: if_splits)

lemma BinnedCost_init_consistent:
  "BinnedCost_init n xe model names vb = Inr b \<Longrightarrow> consistent b \<and> u_masked b = u_data b"
  by (auto simp: BinnedCost_init_def consistent_def masked_view_def bind_err_def
           split: sum.splits)

lemma BinnedCost_set_data_consistent:
  "BinnedCost_set_data val b = Inr b' \<Longrightarrow> consistent b'"
  by (auto simp: BinnedCost_set_data_def bind_err_def split: sum.splits
           dest: set_data_consistent)

lemma LeastSquares_init_consistent:
  "LeastSquares_init x y ye model l names vb = Inr c \<Longrightarrow> consistent c \<and> u_masked c = u_data c"
  by (auto simp: LeastSquares_init_def Let_def consistent_def masked_view_def bind_err_def
           split: sum.splits)

text \<open>
  C5. The mask and data setters of MaskedCost, inherited by the binned and the
  least-squares terms. After a boolean mask is set, \<open>ndata\<close> is the number of True
  entries (and a mask as long as the data can be set); after an index array is set, it is
  the length of the index array; setting the mask to None always succeeds and \<open>ndata\<close>
  is again the length of the data. Every setter that returns, and every constructor,
  leaves the stored view equal to what the stored data and mask select.
\<close>

theorem MaskedCost_mask_ndata_view:
  "(set_mask (Some (BoolMask bs)) c = Inr cb \<longrightarrow> masked_ndata cb = Inr (length (filter id bs))) \<and>
   (len (u_data c) = Inr (length bs) \<longrightarrow> (\<exists>cb. set_mask (Some (BoolMask bs)) c = Inr cb)) \<and>
   (set_mask (Some (IndexMask js)) c = Inr ci \<longrightarrow> masked_ndata ci = Inr (length js)) \<and>
   (\<exists>cn. set_mask None c = Inr cn \<and> masked_ndata cn = len (u_data c)) \<and>
   (set_mask m c = Inr cm \<longrightarrow> consistent cm \<and> u_mask cm = m \<and> u_data cm = u_data c) \<and>
   (set_data v c = Inr cd \<longrightarrow>
      consistent cd \<and> u_mask cd = u_mask c \<and> assign_all (u_data c) v = Inr (u_data cd)) \<and>
   consistent (MaskedCost_init args d vb) \<and>
   (BinnedCost_init n xe model names vb = Inr b \<longrightarrow> consistent b) \<and>
   (BinnedCost_set_data val b = Inr b' \<longrightarrow> consistent b') \<and>
   (LeastSquares_init x y ye lmodel l names vb = Inr ls \<longrightarrow> consistent ls)"
proof -
  have 1: "masked_ndata cb = Inr (length (filter id bs))"
    if "set_mask (Some (BoolMask bs)) c = Inr cb"
    using set_mask_Some[OF that] by (simp add: masked_ndata_def getitem_len_bool)
  have 2: "\<exists>cb. set_mask (Some (BoolMask bs)) c = Inr cb" if "len (u_data c) = Inr (length bs)"
    using getitem_bool_ok[OF that] set_mask_Some_ok by blast
  have 3: "masked_ndata ci = Inr (length js)" if "set_mask (Some (IndexMask js)) c = Inr ci"
    using set_mask_Some[OF that] by (simp add: masked_ndata_def getitem_len_index)
  have 4: "\<exists>cn. set_mask None c = Inr cn \<and> masked_ndata cn = len (u_data c)"
    by (simp add: set_mask_None masked_ndata_def)
  show ?thesis
    using 1 2 3 4 set_mask_consistent[of m c cm] set_data_consistent[of v c cd]
      MaskedCost_init_consistent[of args d vb]
      BinnedCost_init_consistent[of n xe model names vb b]
      BinnedCost_set_data_consistent[of val b b']
      LeastSquares_init_consistent[of x y ye lmodel l names vb ls]
    by blast
qed

theorem MaskedCost_mask_ndata_view_witness:
  "(\<exists>cb. set_mask (Some (BoolMask [True, False, True])) ex_masked = Inr cb \<and>
         masked_ndata cb = Inr 2 \<and> consistent cb \<and>
         (\<exists>cn. set_mask None cb = Inr cn \<and> masked_ndata cn = Inr 3)) \<and>
   (\<exists>ci. set_mask (Some (IndexMask [0, - 1])) ex_masked = Inr ci \<and> masked_ndata ci = Inr 2) \<and>
   (\<exists>cd. set_data (A0 (Fin 5)) ex_masked = Inr cd \<and> consistent cd) \<and>
   (\<exists>b. BinnedCost_init (A1 [Fin 1, Fin 3]) [Fin 0, Fin 1, Fin 2] cdf_uniform [''x''] 0 = Inr b \<and>
        consistent b \<and>
        (\<exists>b'. BinnedCost_set_data (A1 [Fin 2, Fin 2]) b = Inr b' \<and> consistent b')) \<and>
   LeastSquares_init (A1 [Fin 1, Fin 2]) [Fin 2, Fin 4] (Inl (Fin 1)) lsq_line
     (LossName ''linear'') [''x'', ''a''] 0 = Inr ex_lsq \<and>
   consistent ex_lsq"
proof -
  note T = MaskedCost_mask_ndata_view
  have l: "len (u_data ex_masked) = Inr (length [True, False, True])"
    by (simp add: ex_masked_def MaskedCost_init_def)
  from T[where c = ex_masked and bs = "[True, False, True]", THEN conjunct2, THEN conjunct1] l
  obtain cb where cb: "set_mask (Some (BoolMask [True, False, True])) ex_masked = Inr cb"
    by blast
  from T[where c = ex_masked and bs = "[True, False, True]" and cb = cb, THEN conjunct1] cb
  have cb1: "masked_ndata cb = Inr 2" by simp
  from T[where c = ex_masked and m = "Some (BoolMask [True, False, True])" and cm = cb,
         THEN conjunct2, THEN conjunct2, THEN conjunct2, THEN conjunct2, THEN conjunct1] cb
  have cb2: "consistent cb" "u_data cb = u_data ex_masked" by simp_all
  from T[where c = cb, THEN conjunct2, THEN conjunct2, THEN conjunct2, THEN conjunct1] cb2(2)
  have cn: "\<exists>cn. set_mask None cb = Inr cn \<and> masked_ndata cn = Inr 3"
    by (simp add: ex_masked_def MaskedCost_init_def numeral_3_eq_3)
  have ci: "set_mask (Some (IndexMask [0, - 1])) ex_masked =
      Inr (ex_masked\<lparr>u_mask := Some (IndexMask [0, - 1]), u_masked := A1 [Fin 1, Fin 3]\<rparr>)"
    by (rule set_mask_Some_ok) (simp add: ex_masked_def MaskedCost_init_def)
  from T[where c = ex_masked and js = "[0, - 1]"
           and ci = "ex_masked\<lparr>u_mask := Some (IndexMask [0, - 1]), u_masked := A1 [Fin 1, Fin 3]\<rparr>",
         THEN conjunct2, THEN conjunct2, THEN conjunct1] ci
  have ci': "\<exists>ci. set_mask (Some (IndexMask [0, - 1])) ex_masked = Inr ci \<and> masked_ndata ci = Inr 2"
    by simp
  have "\<exists>cd. set_data (A0 (Fin 5)) ex_masked = Inr cd"
    by (simp add: set_data_def update_masked_def masked_view_def ex_masked_def MaskedCost_init_def)
  then obtain cd where cd: "set_data (A0 (Fin 5)) ex_masked = Inr cd" by blast
  from T[where c = ex_masked and v = "A0 (Fin 5)" and cd = cd,
         THEN conjunct2, THEN conjunct2, THEN conjunct2, THEN conjunct2, THEN conjunct2,
         THEN conjunct1] cd
  have cd': "consistent cd" by simp
  have "\<exists>b. BinnedCost_init (A1 [Fin 1, Fin 3]) [Fin 0, Fin 1, Fin 2] cdf_uniform [''x''] 0 = Inr b"
    by (simp add: BinnedCost_init_def prepare_data_def ndim_def)
  then obtain b where
    b: "BinnedCost_init (A1 [Fin 1, Fin 3]) [Fin 0, Fin 1, Fin 2] cdf_uniform [''x''] 0 = Inr b"
    by blast
  from T[where c = ex_masked and n = "A1 [Fin 1, Fin 3]" and xe = "[Fin 0, Fin 1, Fin 2]"
           and model = cdf_uniform and names = "[''x'']" and vb = 0 and b = b,
         THEN conjunct2, THEN conjunct2, THEN conjunct2, THEN conjunct2, THEN conjunct2,
         THEN conjunct2, THEN conjunct2, THEN conjunct1] b
  have b': "consistent b" by simp
  have "\<exists>b'. BinnedCost_set_data (A1 [Fin 2, Fin 2]) b = Inr b'"
    using b
    by (auto simp: BinnedCost_init_def BinnedCost_set_data_def prepare_data_def ndim_def
          set_data_def update_masked_def masked_view_def)
  then obtain b' where b2: "BinnedCost_set_data (A1 [Fin 2, Fin 2]) b = Inr b'" by blast
  from T[where c = ex_masked and val = "A1 [Fin 2, Fin 2]" and b = b and b' = b',
         THEN conjunct2, THEN conjunct2, THEN conjunct2, THEN conjunct2, THEN conjunct2,
         THEN conjunct2, THEN conjunct2, THEN conjunct2, THEN conjunct1] b2
  have cb': "consistent b'" by simp
  have ls: "LeastSquares_init (A1 [Fin 1, Fin 2]) [Fin 2, Fin 4] (Inl (Fin 1)) lsq_line
      (LossName ''linear'') [''x'', ''a''] 0 = Inr ex_lsq"
    by (simp add: LeastSquares_init_def broadcast_arrays_def common_length_def column_stack_def
          ex_lsq_def ndim_def upt_conv_Cons Let_def numeral_3_eq_3)
  from T[where c = ex_masked and x = "A1 [Fin 1, Fin 2]" and y = "[Fin 2, Fin 4]"
           and ye = "Inl (Fin 1)" and lmodel = lsq_line and l = "LossName ''linear''"
           and names = "[''x'', ''a'']" and vb = 0 and ls = ex_lsq,
         THEN conjunct2, THEN conjunct2, THEN conjunct2, THEN conjunct2, THEN conjunct2,
         THEN conjunct2, THEN conjunct2, THEN conjunct2, THEN conjunct2] ls
  have ls': "consistent ex_lsq" by simp
  from cb cb1 cb2 cn ci' cd cd' b b' b2 cb' ls ls' show ?thesis by blast
qed

subsection \<open>Binned terms: shapes\<close>

lemma length_np_diff: "length (np_diff xs) = length xs - 1"
  by (induction xs rule: np_diff.induct) auto

lemma column_stack4_rows:
  "list_all (\<lambda>r. length r = 4) (column_stack4 a b c d)"
  by (auto simp: column_stack4_def list_all_iff)

lemma length_column_stack4:
  "length (column_stack4 a b c d) = min (length a) (min (length b) (min (length c) (length d)))"
  by (simp add: column_stack4_def)

lemma prepare_data_shape:
  assumes "prepare_data xe val = Inr d"
  shows "binned_shape xe d"
proof (cases val)
  case (A0 x)
  with assms show ?thesis
    by (auto simp: prepare_data_def Let_def ndim_def split: if_splits)
next
  case (A1 ns)
  with assms show ?thesis
    by (auto simp: prepare_data_def Let_def ndim_def split: if_splits)
next
  case (A2 k rows)
  with assms have "d = bohm_zech (A2 k rows)" "length rows + 1 = length xe"
    by (auto simp: prepare_data_def Let_def ndim_def split: if_splits)
  then show ?thesis
    by (simp add: Let_def column_stack4_rows length_column_stack4 column_def)
qed

lemma BinnedCost_init_inv:
  assumes "BinnedCost_init n xe model names vb = Inr c"
  shows "binned_inv c \<and> u_mask c = None \<and> u_xe c = xe \<and> b_model c = model \<and>
         prepare_data xe n = Inr (u_data c)"
proof -
  from assms obtain d where d: "prepare_data xe n = Inr d"
    and c: "c = \<lparr>func_code = drop 1 names, verbose = vb, u_data = d, u_mask = None,
                  u_masked = d, u_xe = xe, b_model = model\<rparr>"
    by (auto simp: BinnedCost_init_def bind_err_def split: sum.splits)
  from prepare_data_shape[OF d] c d show ?thesis
    by (simp add: binned_inv_def consistent_def masked_view_def)
qed

lemma set_mask_binned_inv:
  assumes "binned_inv c" "set_mask m c = Inr c'"
  shows "binned_inv c' \<and> u_mask c' = m \<and> u_data c' = u_data c \<and> u_xe c' = u_xe c \<and>
         b_model c' = b_model c"
proof -
  from assms(2) have "u_xe c' = u_xe c \<and> b_model c' = b_model c"
    by (auto simp: set_mask_def update_masked_def bind_err_def split: sum.splits)
  with set_mask_consistent[OF assms(2)] assms(1) show ?thesis
    by (simp add: binned_inv_def)
qed

lemma np_take_same_length:
  assumes "length xs = length ys" "np_take xs m = Inr a"
  shows "\<exists>b. np_take ys m = Inr b \<and> length b = length a"
proof (cases m)
  case (BoolMask bs)
  with assms show ?thesis by (auto simp: length_filter_zip_snd split: if_splits)
next
  case (IndexMask js)
  with assms show ?thesis by (auto simp: Let_def split: if_splits)
qed

subsection \<open>The Poisson kernels on arrays of one length\<close>

lemma broadcast2_same: "length xs = length ys \<Longrightarrow> broadcast2 f xs ys = Inr (map2 f xs ys)"
  by (simp add: broadcast2_def)

lemma map2_map_map: "map2 f (map g xs) (map h ys) = map2 (\<lambda>x y. f (g x) (h y)) xs ys"
  by (simp add: zip_map_map split_def)

lemma map2_left: 
  "length xs = length ys \<Longrightarrow> map2 f xs (map2 g xs ys) = map2 (\<lambda>x y. f x (g x y)) xs ys"
  by (induction xs ys rule: list_induct2) auto

lemma map2_right: 
  "length xs = length ys \<Longrightarrow> map2 f ys (map2 g xs ys) = map2 (\<lambda>x y. f y (g x y)) xs ys"
  by (induction xs ys rule: list_induct2) auto

lemma map2_map2:
  "length xs = length ys \<Longrightarrow>
     map2 f (map2 g xs ys) (map2 h xs ys) = map2 (\<lambda>x y. f (g x y) (h x y)) xs ys"
  by (induction xs ys rule: list_induct2) auto

lemma log_poisson_part_same:
  assumes "length n = length mu"
  shows "log_poisson_part n mu =
           Inr (map2 (\<lambda>a m. a * (np_log (a + tiny) - np_log (m + tiny))) n mu)"
  using assms
  by (simp add: log_poisson_part_def broadcast2_same map2_map_map map2_left)

lemma sum_log_poisson_part_same:
  assumes "length n = length mu"
  shows "sum_log_poisson_part n mu =
           Inr (np_sum (map2 (\<lambda>a m. a * (np_log (a + tiny) - np_log (m + tiny))) n mu))"
  by (simp add: sum_log_poisson_part_def log_poisson_part_same[OF assms])

lemma map2_flip:
  "length xs = length ys \<Longrightarrow> map2 f ys xs = map2 (\<lambda>x y. f y x) xs ys"
  by (induction xs ys rule: list_induct2) auto

lemma sum_log_poisson_same:
  assumes "length n = length mu"
  shows "sum_log_poisson n mu =
           Inr (np_sum (map2 (\<lambda>a m. m - a + a * (np_log (a + tiny) - np_log (m + tiny))) n mu))"
proof -
  have 1: "broadcast2 (-) mu n = Inr (map2 (\<lambda>a m. m - a) n mu)"
    using assms map2_flip[of n mu "(-)"] by (simp add: broadcast2_same)
  have 2: "broadcast2 (+) (map2 (\<lambda>a m. m - a) n mu)
             (map2 (\<lambda>a m. a * (np_log (a + tiny) - np_log (m + tiny))) n mu) =
           Inr (map2 (\<lambda>a m. m - a + a * (np_log (a + tiny) - np_log (m + tiny))) n mu)"
    using assms by (simp add: broadcast2_same map2_map2)
  show ?thesis
    by (simp add: sum_log_poisson_def 1 2 log_poisson_part_same[OF assms])
qed

subsection \<open>Sums of finite floats\<close>

lemma finite_list: "list_all is_finite xs \<Longrightarrow> \<exists>rs. xs = map Fin rs"
proof (induction xs)
  case Nil
  then show ?case by simp
next
  case (Cons x xs)
  then obtain r rs where "x = Fin r" "xs = map Fin rs"
    by (cases x) auto
  then have "x # xs = map Fin (r # rs)" by simp
  then show ?case by (rule exI[of _ "r # rs"])
qed

lemma np_sum_Fin: "np_sum (map Fin rs) = Fin (sum_list rs)"
  by (induction rs) auto

lemma sum_list_divide: "sum_list (map (\<lambda>r. r / s) rs) = sum_list rs / (s::real)"
  by (induction rs) (auto simp: add_divide_distrib)

lemma normalised_sum_one:
  assumes "list_all is_finite ps" "np_sum ps \<noteq> Fin 0"
  shows "np_sum (map (\<lambda>p. p / np_sum ps) ps) = Fin 1"
proof -
  from finite_list[OF assms(1)] obtain rs where rs: "ps = map Fin rs" by blast
  with assms(2) have nz: "sum_list rs \<noteq> 0" by (simp add: np_sum_Fin)
  have "map (\<lambda>p. p / np_sum ps) ps = map Fin (map (\<lambda>r. r / sum_list rs) rs)"
    using nz by (simp add: rs np_sum_Fin)
  then have "np_sum (map (\<lambda>p. p / np_sum ps) ps) = Fin (sum_list (map (\<lambda>r. r / sum_list rs) rs))"
    by (simp only: np_sum_Fin)
  also have "\<dots> = Fin 1"
    using nz by (simp only: sum_list_divide) simp
  finally show ?thesis .
qed

subsection \<open>BinnedNLL\<close>

lemma active_probs:
  assumes "masked_view d mk = Inr a" "len d = Inr (length ps)"
  shows "\<exists>pa. masked_view (A1 ps) mk = Inr (A1 pa) \<and> len a = Inr (length pa)"
proof (cases mk)
  case None
  with assms show ?thesis by (simp add: masked_view_def)
next
  case (Some m)
  show ?thesis
  proof (cases d)
    case (A0 x)
    with assms show ?thesis by simp
  next
    case (A1 xs)
    with assms Some obtain v where v: "np_take xs m = Inr v" "a = A1 v"
      by (auto simp: masked_view_def bind_err_def split: sum.splits)
    from A1 assms(2) have "length xs = length ps" by simp
    from np_take_same_length[OF this v(1)] v(2) Some show ?thesis
      by (auto simp: masked_view_def)
  next
    case (A2 k rows)
    with assms Some obtain v where v: "np_take rows m = Inr v" "a = A2 k v"
      by (auto simp: masked_view_def bind_err_def split: sum.splits)
    from A2 assms(2) have "length rows = length ps" by simp
    from np_take_same_length[OF this v(1)] v(2) Some show ?thesis
      by (auto simp: masked_view_def)
  qed
qed

lemma BinnedNLL_prob_value:
  assumes "masked_view (A1 (np_diff (b_model c (u_xe c) args))) (u_mask c) = Inr (A1 pa)"
  shows "BinnedNLL_prob c args =
           Inr (if u_mask c = None then pa else map (\<lambda>p. p / np_sum pa) pa)"
  using assms
  by (auto simp: BinnedNLL_prob_def masked_view_def Let_def bind_err_def
           split: option.splits sum.splits)

lemma binned_data_len:
  assumes "binned_inv c" "length (b_model c (u_xe c) args) = length (u_xe c)"
  shows "len (u_data c) = Inr (length (np_diff (b_model c (u_xe c) args)))"
  using assms
  by (cases "u_data c") (auto simp: binned_inv_def length_np_diff)

lemma np_take_rows_wf:
  assumes "np_take rows m = Inr v" "list_all P rows"
  shows "list_all P v"
proof (cases m)
  case (BoolMask bs)
  with assms show ?thesis
    by (auto simp: list_all_iff split: if_splits dest!: set_zip_leftD)
next
  case (IndexMask js)
  have "rows ! nat (if j < 0 then j + int (length rows) else j) \<in> set rows"
    if "- int (length rows) \<le> j" "j < int (length rows)" for j
    using that by (intro nth_mem) auto
  with IndexMask assms show ?thesis
    by (auto simp: Let_def list_all_iff split: if_splits)
qed

lemma masked_view_A1: "masked_view (A1 ns) mk = Inr a \<Longrightarrow> \<exists>na. a = A1 na"
  by (cases mk) (auto simp: masked_view_def bind_err_def split: sum.splits)

lemma masked_view_A2:
  "masked_view (A2 k rows) mk = Inr a \<Longrightarrow> list_all P rows \<Longrightarrow> \<exists>v. a = A2 k v \<and> list_all P v"
  by (cases mk)
     (auto simp: masked_view_def bind_err_def split: sum.splits dest: np_take_rows_wf)

lemma binned_view_plain:
  assumes "binned_inv c" "\<not> weighted c"
  shows "\<exists>na. u_masked c = A1 na"
proof -
  from assms obtain ns where ns: "u_data c = A1 ns"
    by (cases "u_data c") (auto simp: binned_inv_def weighted_def ndim_def)
  from assms(1) have "masked_view (A1 ns) (u_mask c) = Inr (u_masked c)"
    by (simp add: binned_inv_def consistent_def ns)
  then show ?thesis by (rule masked_view_A1)
qed

lemma binned_view_weighted:
  assumes "binned_inv c" "weighted c"
  shows "\<exists>rows. u_masked c = A2 4 rows \<and> list_all (\<lambda>r. length r = 4) rows"
proof -
  from assms obtain rows where d: "u_data c = A2 4 rows" "list_all (\<lambda>r. length r = 4) rows"
    by (cases "u_data c") (auto simp: binned_inv_def weighted_def ndim_def)
  from assms(1) have "masked_view (A2 4 rows) (u_mask c) = Inr (u_masked c)"
    by (simp add: binned_inv_def consistent_def d)
  from masked_view_A2[OF this d(2)] show ?thesis .
qed

text \<open>
  C1 (amended). A call of BinnedNLL on a term in order, with a model that returns one
  value per bin edge. The bin probabilities are the differences of the model's output,
  taken at the active bins. If the mask is not None they are divided by their sum, and
  then sum to one whenever they are finite with a sum other than zero. For plain counts
  the expected counts are \<open>mu = sum(n) * prob\<close> with \<open>n\<close> the active counts; for
  weighted contents they are \<open>sum(n[:, 0]) * prob * n[:, 3]\<close> and the counts entering
  the cost are \<open>n[:, 2]\<close>. The cost is
  \<open>2 * sum(n * (log(n + 1e-323) - log(mu + 1e-323)))\<close> over the active bins.
\<close>

theorem BinnedNLL_call_cost:
  assumes inv: "binned_inv c"
    and out: "length (b_model c (u_xe c) args) = length (u_xe c)"
  shows "\<exists>pa prob.
      masked_view (A1 (np_diff (b_model c (u_xe c) args))) (u_mask c) = Inr (A1 pa) \<and>
      len (u_masked c) = Inr (length pa) \<and>
      prob = (if u_mask c = None then pa else map (\<lambda>p. p / np_sum pa) pa) \<and>
      BinnedNLL_prob c args = Inr prob \<and>
      (u_mask c \<noteq> None \<and> list_all is_finite pa \<and> np_sum pa \<noteq> Fin 0
         \<longrightarrow> np_sum prob = Fin 1) \<and>
      (\<not> weighted c \<longrightarrow>
         (\<exists>na mu. u_masked c = A1 na \<and>
            mu = map (\<lambda>p. np_sum na * p) prob \<and>
            BinnedNLL_call c args =
              Inr (Fin 2 * np_sum (map2 (\<lambda>n m. n * (np_log (n + tiny) - np_log (m + tiny)))
                                    na mu)))) \<and>
      (weighted c \<longrightarrow>
         (\<exists>rows mu. u_masked c = A2 4 rows \<and>
            mu = map2 (*) (map (\<lambda>p. np_sum (column 0 rows) * p) prob) (column 3 rows) \<and>
            BinnedNLL_call c args =
              Inr (Fin 2 * np_sum (map2 (\<lambda>n m. n * (np_log (n + tiny) - np_log (m + tiny)))
                                    (column 2 rows) mu))))"
proof -
  let ?p0 = "np_diff (b_model c (u_xe c) args)"
  from inv have view: "masked_view (u_data c) (u_mask c) = Inr (u_masked c)"
    by (simp add: binned_inv_def consistent_def)
  from active_probs[OF view binned_data_len[OF inv out]] obtain pa
    where pa: "masked_view (A1 ?p0) (u_mask c) = Inr (A1 pa)" "len (u_masked c) = Inr (length pa)"
    by blast
  define prob where "prob = (if u_mask c = None then pa else map (\<lambda>p. p / np_sum pa) pa)"
  have lp: "length prob = length pa" by (simp add: prob_def)
  have pr: "BinnedNLL_prob c args = Inr prob"
    unfolding prob_def by (rule BinnedNLL_prob_value[OF pa(1)])
  have one: "np_sum prob = Fin 1"
    if "u_mask c \<noteq> None" "list_all is_finite pa" "np_sum pa \<noteq> Fin 0"
    using that normalised_sum_one[of pa] by (auto simp: prob_def)
  have plain: "\<exists>na mu. u_masked c = A1 na \<and> mu = map (\<lambda>p. np_sum na * p) prob \<and>
      BinnedNLL_call c args =
        Inr (Fin 2 * np_sum (map2 (\<lambda>n m. n * (np_log (n + tiny) - np_log (m + tiny))) na mu))"
    if nw: "\<not> weighted c"
  proof -
    from binned_view_plain[OF inv nw] obtain na where na: "u_masked c = A1 na" by blast
    with pa(2) lp have len: "length na = length (map (\<lambda>p. np_sum na * p) prob)" by simp
    show ?thesis
      using na nw pr by (simp add: BinnedNLL_call_def sum_log_poisson_part_same[OF len])
  qed
  have wtd: "\<exists>rows mu. u_masked c = A2 4 rows \<and>
      mu = map2 (*) (map (\<lambda>p. np_sum (column 0 rows) * p) prob) (column 3 rows) \<and>
      BinnedNLL_call c args =
        Inr (Fin 2 * np_sum (map2 (\<lambda>n m. n * (np_log (n + tiny) - np_log (m + tiny)))
                              (column 2 rows) mu))"
    if w: "weighted c"
  proof -
    from binned_view_weighted[OF inv w] obtain rows where rows: "u_masked c = A2 4 rows"
      by blast
    with pa(2) lp have l: "length rows = length prob" by simp
    let ?mu = "map2 (*) (map (\<lambda>p. np_sum (column 0 rows) * p) prob) (column 3 rows)"
    have im: "imul (map (\<lambda>p. np_sum (column 0 rows) * p) prob) (column 3 rows) = Inr ?mu"
      using l by (simp add: imul_def column_def)
    have len: "length (column 2 rows) = length ?mu"
      using l by (simp add: column_def)
    show ?thesis
      using rows w pr im
      by (simp add: BinnedNLL_call_def sum_log_poisson_part_same[OF len])
  qed
  show ?thesis
  proof (intro exI conjI)
    show "masked_view (A1 ?p0) (u_mask c) = Inr (A1 pa)" by (fact pa(1))
    show "len (u_masked c) = Inr (length pa)" by (fact pa(2))
    show "prob = (if u_mask c = None then pa else map (\<lambda>p. p / np_sum pa) pa)"
      by (fact prob_def)
    show "BinnedNLL_prob c args = Inr prob" by (fact pr)
    show "u_mask c \<noteq> None \<and> list_all is_finite pa \<and> np_sum pa \<noteq> Fin 0
            \<longrightarrow> np_sum prob = Fin 1"
      using one by simp
    show "\<not> weighted c \<longrightarrow>
         (\<exists>na mu. u_masked c = A1 na \<and>
            mu = map (\<lambda>p. np_sum na * p) prob \<and>
            BinnedNLL_call c args =
              Inr (Fin 2 * np_sum (map2 (\<lambda>n m. n * (np_log (n + tiny) - np_log (m + tiny)))
                                    na mu)))"
      using plain by (rule impI)
    show "weighted c \<longrightarrow>
         (\<exists>rows mu. u_masked c = A2 4 rows \<and>
            mu = map2 (*) (map (\<lambda>p. np_sum (column 0 rows) * p) prob) (column 3 rows) \<and>
            BinnedNLL_call c args =
              Inr (Fin 2 * np_sum (map2 (\<lambda>n m. n * (np_log (n + tiny) - np_log (m + tiny)))
                                    (column 2 rows) mu)))"
      using wtd by (rule impI)
  qed
qed

subsection \<open>The example terms are what the constructors and setters return\<close>

lemma ex_binned_step_init:
  "BinnedCost_init (A1 [Fin 1, Fin 1]) [Fin 0, Fin 1, Fin 2] cdf_step [''xe''] 0 = Inr ex_binned_step"
  by (simp add: BinnedCost_init_def prepare_data_def ndim_def ex_binned_step_def)

lemma ex_binned_init:
  "BinnedCost_init (A1 [Fin 1, Fin 3, Fin 5]) [Fin 0, Fin 1, Fin 2, Fin 3] cdf_thirds [''xe''] 0
     = Inr ex_binned"
  by (simp add: BinnedCost_init_def prepare_data_def ndim_def ex_binned_def)

lemma ex_binned_masked_set:
  "set_mask (Some (BoolMask [True, True, False])) ex_binned = Inr ex_binned_masked"
  by (simp add: set_mask_def update_masked_def masked_view_def ex_binned_def ex_binned_masked_def)

lemma ex_weighted_init:
  "BinnedCost_init (A2 2 [[Fin 10, Fin 4], [Fin 20, Fin 9]]) [Fin 0, Fin 1, Fin 2] cdf_uniform
     [''xe''] 0 = Inr ex_weighted"
  by (simp add: BinnedCost_init_def prepare_data_def ndim_def ex_weighted_def
        ex_weighted_data_def del: bohm_zech.simps)

lemma ex_binned_inv: "binned_inv ex_binned_masked"
  using set_mask_binned_inv[OF _ ex_binned_masked_set] BinnedCost_init_inv[OF ex_binned_init]
  by simp

lemma ex_weighted_inv: "binned_inv ex_weighted"
  using BinnedCost_init_inv[OF ex_weighted_init] by simp

theorem BinnedNLL_call_cost_witness:
  "binned_inv ex_binned_masked \<and> \<not> weighted ex_binned_masked \<and>
   BinnedNLL_prob ex_binned_masked [] = Inr [Fin (1 / 2), Fin (1 / 2)] \<and>
   np_sum [Fin (1 / 2), Fin (1 / 2)] = Fin 1 \<and>
   BinnedNLL_call ex_binned_masked [] =
     Inr (Fin 2 * np_sum [Fin 1 * (np_log (Fin 1 + tiny) - np_log (Fin 2 + tiny)),
                          Fin 3 * (np_log (Fin 3 + tiny) - np_log (Fin 2 + tiny))]) \<and>
   binned_inv ex_weighted \<and> weighted ex_weighted \<and>
   (\<exists>rows. u_masked ex_weighted = A2 4 rows \<and>
      BinnedNLL_call ex_weighted [] =
        Inr (Fin 2 * np_sum (map2 (\<lambda>n m. n * (np_log (n + tiny) - np_log (m + tiny)))
               (column 2 rows)
               (map2 (*) (map (\<lambda>p. np_sum (column 0 rows) * p) [Fin (1 / 2), Fin (1 / 2)])
                  (column 3 rows)))))"
proof -
  have nw: "\<not> weighted ex_binned_masked"
    by (simp add: weighted_def ndim_def ex_binned_masked_def ex_binned_def)
  have out: "length (b_model ex_binned_masked (u_xe ex_binned_masked) []) =
      length (u_xe ex_binned_masked)"
    by (simp add: ex_binned_masked_def ex_binned_def)
  from BinnedNLL_call_cost[OF ex_binned_inv out] nw obtain pa prob na mu where
    pa: "masked_view (A1 (np_diff (b_model ex_binned_masked (u_xe ex_binned_masked) [])))
           (u_mask ex_binned_masked) = Inr (A1 pa)"
    and prob: "prob = (if u_mask ex_binned_masked = None then pa else map (\<lambda>p. p / np_sum pa) pa)"
      "BinnedNLL_prob ex_binned_masked [] = Inr prob"
    and one: "u_mask ex_binned_masked \<noteq> None \<and> list_all is_finite pa \<and> np_sum pa \<noteq> Fin 0
         \<longrightarrow> np_sum prob = Fin 1"
    and na: "u_masked ex_binned_masked = A1 na" "mu = map (\<lambda>p. np_sum na * p) prob"
    and call: "BinnedNLL_call ex_binned_masked [] =
       Inr (Fin 2 * np_sum (map2 (\<lambda>n m. n * (np_log (n + tiny) - np_log (m + tiny))) na mu))"
    by blast
  from pa have pa': "pa = [Fin (1 / 3), Fin (1 / 3)]"
    by (simp add: ex_binned_masked_def ex_binned_def masked_view_def minus_npfloat_def)
  from prob pa' have prob': "prob = [Fin (1 / 2), Fin (1 / 2)]"
    by (simp add: ex_binned_masked_def ex_binned_def)
  from one pa' prob' have s1: "np_sum [Fin (1 / 2), Fin (1 / 2)] = Fin 1"
    by (simp add: ex_binned_masked_def ex_binned_def)
  from na have na': "na = [Fin 1, Fin 3]" "mu = [Fin 2, Fin 2]"
    by (auto simp: ex_binned_masked_def ex_binned_def prob')
  have w: "weighted ex_weighted"
    by (simp add: weighted_def ndim_def ex_weighted_def ex_weighted_data_def Let_def)
  have outw: "length (b_model ex_weighted (u_xe ex_weighted) []) = length (u_xe ex_weighted)"
    by (simp add: ex_weighted_def)
  from BinnedNLL_call_cost[OF ex_weighted_inv outw] w obtain pw probw rows muw where
    pw: "masked_view (A1 (np_diff (b_model ex_weighted (u_xe ex_weighted) [])))
           (u_mask ex_weighted) = Inr (A1 pw)"
    and probw: "probw = (if u_mask ex_weighted = None then pw else map (\<lambda>p. p / np_sum pw) pw)"
    and rows: "u_masked ex_weighted = A2 4 rows"
      "muw = map2 (*) (map (\<lambda>p. np_sum (column 0 rows) * p) probw) (column 3 rows)"
    and callw: "BinnedNLL_call ex_weighted [] =
       Inr (Fin 2 * np_sum (map2 (\<lambda>n m. n * (np_log (n + tiny) - np_log (m + tiny)))
              (column 2 rows) muw))"
    by blast
  from pw probw have probw': "probw = [Fin (1 / 2), Fin (1 / 2)]"
    by (simp add: ex_weighted_def masked_view_def minus_npfloat_def)
  from rows callw have
    "\<exists>rows. u_masked ex_weighted = A2 4 rows \<and>
      BinnedNLL_call ex_weighted [] =
        Inr (Fin 2 * np_sum (map2 (\<lambda>n m. n * (np_log (n + tiny) - np_log (m + tiny)))
               (column 2 rows)
               (map2 (*) (map (\<lambda>p. np_sum (column 0 rows) * p) [Fin (1 / 2), Fin (1 / 2)])
                  (column 3 rows))))"
    unfolding probw' by blast
  with ex_binned_inv nw prob(2) prob' s1 call na' ex_weighted_inv w show ?thesis
    by simp
qed

lemma guard_pos: "0 \<le> r \<Longrightarrow> np_log (Fin r + tiny) = Fin (ln (r + tiny_val))"
  using tiny_val_pos by (simp add: tiny_def add_nonneg_pos)

text \<open>
  C1 as stated fails where a bin with a count has expected count zero. Two bins with
  counts \<open>[1, 1]\<close> and a model whose cdf at the edges is \<open>[0, 1, 1]\<close> have
  \<open>prob = [1, 0]\<close> and \<open>mu = [2, 0]\<close>. The call returns a finite number, since it
  takes \<open>log(0 + 1e-323)\<close>; the formula \<open>2 * sum(n * (log(n) - log(mu)))\<close> has the
  term \<open>1 * (log(1) - log(0))\<close> and is \<open>inf\<close>.
\<close>

theorem BinnedNLL_guard_counterexample:
  "BinnedCost_init (A1 [Fin 1, Fin 1]) [Fin 0, Fin 1, Fin 2] cdf_step [''xe''] 0
     = Inr ex_binned_step \<and>
   BinnedNLL_prob ex_binned_step [] = Inr [Fin 1, Fin 0] \<and>
   BinnedNLL_call ex_binned_step [] =
     Inr (Fin (2 * (1 * (ln (1 + tiny_val) - ln (2 + tiny_val)) +
                    (1 * (ln (1 + tiny_val) - ln tiny_val) + 0)))) \<and>
   spec_binned_cost [Fin 1, Fin 1] [Fin 2, Fin 0] = PInf \<and>
   BinnedNLL_call ex_binned_step [] \<noteq> Inr (spec_binned_cost [Fin 1, Fin 1] [Fin 2, Fin 0])"
proof -
  have prob: "BinnedNLL_prob ex_binned_step [] = Inr [Fin 1, Fin 0]"
    by (simp add: BinnedNLL_prob_def ex_binned_step_def minus_npfloat_def)
  have g: "np_log (Fin 1 + tiny) = Fin (ln (1 + tiny_val))"
    "np_log (Fin 2 + tiny) = Fin (ln (2 + tiny_val))"
    "np_log (Fin 0 + tiny) = Fin (ln tiny_val)"
    using guard_pos[of 1] guard_pos[of 2] guard_pos[of 0] by simp_all
  have call: "BinnedNLL_call ex_binned_step [] =
     Inr (Fin (2 * (1 * (ln (1 + tiny_val) - ln (2 + tiny_val)) +
                    (1 * (ln (1 + tiny_val) - ln tiny_val) + 0))))"
  proof -
    have f: "u_masked ex_binned_step = A1 [Fin 1, Fin 1]" "\<not> weighted ex_binned_step"
      by (simp_all add: weighted_def ndim_def ex_binned_step_def)
    show ?thesis
      by (simp add: BinnedNLL_call_def prob f sum_log_poisson_part_def log_poisson_part_def
            broadcast2_def g minus_npfloat_def)
  qed
  have spec: "spec_binned_cost [Fin 1, Fin 1] [Fin 2, Fin 0] = PInf"
    by (simp add: spec_binned_cost_def minus_npfloat_def)
  from ex_binned_step_init prob call spec show ?thesis by simp
qed

subsection \<open>ExtendedBinnedNLL\<close>

lemma ExtendedBinnedNLL_mu_value:
  assumes "masked_view (A1 (np_diff (b_model c (u_xe c) args))) (u_mask c) = Inr (A1 ma)"
  shows "ExtendedBinnedNLL_mu c args = Inr ma"
  using assms
  by (auto simp: ExtendedBinnedNLL_mu_def masked_view_def Let_def bind_err_def
           split: option.splits sum.splits)

text \<open>
  C6 (amended). A call of ExtendedBinnedNLL on a term in order, with a model that
  returns one value per bin edge. The expected counts are the differences of the
  model's output at the active bins, as they are: nothing is divided by their sum, with
  or without a mask. For weighted contents they are multiplied by \<open>n[:, 3]\<close> and the
  counts entering the cost are \<open>n[:, 2]\<close>. The cost is
  \<open>2 * sum(mu - n + n * (log(n + 1e-323) - log(mu + 1e-323)))\<close> over the active bins.
\<close>

theorem ExtendedBinnedNLL_call_cost:
  assumes inv: "binned_inv c"
    and out: "length (b_model c (u_xe c) args) = length (u_xe c)"
  shows "\<exists>ma.
      masked_view (A1 (np_diff (b_model c (u_xe c) args))) (u_mask c) = Inr (A1 ma) \<and>
      len (u_masked c) = Inr (length ma) \<and>
      ExtendedBinnedNLL_mu c args = Inr ma \<and>
      (\<not> weighted c \<longrightarrow>
         (\<exists>na. u_masked c = A1 na \<and>
            ExtendedBinnedNLL_call c args =
              Inr (Fin 2 * np_sum (map2 (\<lambda>n m. m - n + n * (np_log (n + tiny) - np_log (m + tiny)))
                                    na ma)))) \<and>
      (weighted c \<longrightarrow>
         (\<exists>rows mu. u_masked c = A2 4 rows \<and>
            mu = map2 (*) ma (column 3 rows) \<and>
            ExtendedBinnedNLL_call c args =
              Inr (Fin 2 * np_sum (map2 (\<lambda>n m. m - n + n * (np_log (n + tiny) - np_log (m + tiny)))
                                    (column 2 rows) mu))))"
proof -
  let ?p0 = "np_diff (b_model c (u_xe c) args)"
  from inv have view: "masked_view (u_data c) (u_mask c) = Inr (u_masked c)"
    by (simp add: binned_inv_def consistent_def)
  from active_probs[OF view binned_data_len[OF inv out]] obtain ma
    where ma: "masked_view (A1 ?p0) (u_mask c) = Inr (A1 ma)" "len (u_masked c) = Inr (length ma)"
    by blast
  have mu: "ExtendedBinnedNLL_mu c args = Inr ma"
    by (rule ExtendedBinnedNLL_mu_value[OF ma(1)])
  have plain: "\<exists>na. u_masked c = A1 na \<and>
      ExtendedBinnedNLL_call c args =
        Inr (Fin 2 * np_sum (map2 (\<lambda>n m. m - n + n * (np_log (n + tiny) - np_log (m + tiny)))
                              na ma))"
    if nw: "\<not> weighted c"
  proof -
    from binned_view_plain[OF inv nw] obtain na where na: "u_masked c = A1 na" by blast
    with ma(2) have len: "length na = length ma" by simp
    show ?thesis
      using na nw mu by (simp add: ExtendedBinnedNLL_call_def sum_log_poisson_same[OF len])
  qed
  have wtd: "\<exists>rows mu. u_masked c = A2 4 rows \<and> mu = map2 (*) ma (column 3 rows) \<and>
      ExtendedBinnedNLL_call c args =
        Inr (Fin 2 * np_sum (map2 (\<lambda>n m. m - n + n * (np_log (n + tiny) - np_log (m + tiny)))
                              (column 2 rows) mu))"
    if w: "weighted c"
  proof -
    from binned_view_weighted[OF inv w] obtain rows where rows: "u_masked c = A2 4 rows"
      by blast
    with ma(2) have l: "length rows = length ma" by simp
    have im: "imul ma (column 3 rows) = Inr (map2 (*) ma (column 3 rows))"
      using l by (simp add: imul_def column_def)
    have len: "length (column 2 rows) = length (map2 (*) ma (column 3 rows))"
      using l by (simp add: column_def)
    show ?thesis
      using rows w mu im
      by (simp add: ExtendedBinnedNLL_call_def sum_log_poisson_same[OF len])
  qed
  show ?thesis
  proof (intro exI conjI)
    show "masked_view (A1 ?p0) (u_mask c) = Inr (A1 ma)" by (fact ma(1))
    show "len (u_masked c) = Inr (length ma)" by (fact ma(2))
    show "ExtendedBinnedNLL_mu c args = Inr ma" by (fact mu)
    show "\<not> weighted c \<longrightarrow>
         (\<exists>na. u_masked c = A1 na \<and>
            ExtendedBinnedNLL_call c args =
              Inr (Fin 2 * np_sum (map2 (\<lambda>n m. m - n + n * (np_log (n + tiny) - np_log (m + tiny)))
                                    na ma)))"
      using plain by (rule impI)
    show "weighted c \<longrightarrow>
         (\<exists>rows mu. u_masked c = A2 4 rows \<and>
            mu = map2 (*) ma (column 3 rows) \<and>
            ExtendedBinnedNLL_call c args =
              Inr (Fin 2 * np_sum (map2 (\<lambda>n m. m - n + n * (np_log (n + tiny) - np_log (m + tiny)))
                                    (column 2 rows) mu)))"
      using wtd by (rule impI)
  qed
qed

theorem ExtendedBinnedNLL_call_cost_witness:
  "binned_inv ex_binned_masked \<and> \<not> weighted ex_binned_masked \<and>
   ExtendedBinnedNLL_mu ex_binned_masked [] = Inr [Fin (1 / 3), Fin (1 / 3)] \<and>
   ExtendedBinnedNLL_call ex_binned_masked [] =
     Inr (Fin 2 * np_sum
        [Fin (1 / 3) - Fin 1 + Fin 1 * (np_log (Fin 1 + tiny) - np_log (Fin (1 / 3) + tiny)),
         Fin (1 / 3) - Fin 3 + Fin 3 * (np_log (Fin 3 + tiny) - np_log (Fin (1 / 3) + tiny))]) \<and>
   binned_inv ex_weighted \<and> weighted ex_weighted \<and>
   (\<exists>rows. u_masked ex_weighted = A2 4 rows \<and>
      ExtendedBinnedNLL_call ex_weighted [] =
        Inr (Fin 2 * np_sum (map2 (\<lambda>n m. m - n + n * (np_log (n + tiny) - np_log (m + tiny)))
               (column 2 rows) (map2 (*) [Fin (1 / 2), Fin (1 / 2)] (column 3 rows)))))"
proof -
  have nw: "\<not> weighted ex_binned_masked"
    by (simp add: weighted_def ndim_def ex_binned_masked_def ex_binned_def)
  have out: "length (b_model ex_binned_masked (u_xe ex_binned_masked) []) =
      length (u_xe ex_binned_masked)"
    by (simp add: ex_binned_masked_def ex_binned_def)
  from ExtendedBinnedNLL_call_cost[OF ex_binned_inv out] nw obtain ma na where
    ma: "masked_view (A1 (np_diff (b_model ex_binned_masked (u_xe ex_binned_masked) [])))
           (u_mask ex_binned_masked) = Inr (A1 ma)"
    and mu: "ExtendedBinnedNLL_mu ex_binned_masked [] = Inr ma"
    and na: "u_masked ex_binned_masked = A1 na"
    and call: "ExtendedBinnedNLL_call ex_binned_masked [] =
       Inr (Fin 2 * np_sum (map2 (\<lambda>n m. m - n + n * (np_log (n + tiny) - np_log (m + tiny)))
              na ma))"
    by blast
  from ma have ma': "ma = [Fin (1 / 3), Fin (1 / 3)]"
    by (simp add: ex_binned_masked_def ex_binned_def masked_view_def minus_npfloat_def)
  from na have na': "na = [Fin 1, Fin 3]"
    by (auto simp: ex_binned_masked_def ex_binned_def)
  have w: "weighted ex_weighted"
    by (simp add: weighted_def ndim_def ex_weighted_def ex_weighted_data_def Let_def)
  have outw: "length (b_model ex_weighted (u_xe ex_weighted) []) = length (u_xe ex_weighted)"
    by (simp add: ex_weighted_def)
  from ExtendedBinnedNLL_call_cost[OF ex_weighted_inv outw] w obtain mw rows muw where
    mw: "masked_view (A1 (np_diff (b_model ex_weighted (u_xe ex_weighted) [])))
           (u_mask ex_weighted) = Inr (A1 mw)"
    and rows: "u_masked ex_weighted = A2 4 rows" "muw = map2 (*) mw (column 3 rows)"
    and callw: "ExtendedBinnedNLL_call ex_weighted [] =
       Inr (Fin 2 * np_sum (map2 (\<lambda>n m. m - n + n * (np_log (n + tiny) - np_log (m + tiny)))
              (column 2 rows) muw))"
    by blast
  from mw have mw': "mw = [Fin (1 / 2), Fin (1 / 2)]"
    by (simp add: ex_weighted_def masked_view_def minus_npfloat_def)
  from rows callw have
    "\<exists>rows. u_masked ex_weighted = A2 4 rows \<and>
      ExtendedBinnedNLL_call ex_weighted [] =
        Inr (Fin 2 * np_sum (map2 (\<lambda>n m. m - n + n * (np_log (n + tiny) - np_log (m + tiny)))
               (column 2 rows) (map2 (*) [Fin (1 / 2), Fin (1 / 2)] (column 3 rows))))"
    unfolding mw' by blast
  with ex_binned_inv nw mu ma' call na' ex_weighted_inv w show ?thesis
    by simp
qed

text \<open>
  C6 as stated fails in the same way as C1: with counts \<open>[1, 1]\<close> and a scaled cdf
  \<open>[0, 1, 1]\<close> at the edges, \<open>mu = [1, 0]\<close>; the call returns a finite number, the
  formula \<open>2 * sum(mu - n + n * (log(n) - log(mu)))\<close> is \<open>inf\<close>.
\<close>

theorem ExtendedBinnedNLL_guard_counterexample:
  "BinnedCost_init (A1 [Fin 1, Fin 1]) [Fin 0, Fin 1, Fin 2] cdf_step [''xe''] 0
     = Inr ex_binned_step \<and>
   ExtendedBinnedNLL_mu ex_binned_step [] = Inr [Fin 1, Fin 0] \<and>
   ExtendedBinnedNLL_call ex_binned_step [] =
     Inr (Fin (2 * (1 - 1 + 1 * (ln (1 + tiny_val) - ln (1 + tiny_val)) +
                    (0 - 1 + 1 * (ln (1 + tiny_val) - ln tiny_val) + 0)))) \<and>
   spec_extended_binned_cost [Fin 1, Fin 1] [Fin 1, Fin 0] = PInf \<and>
   ExtendedBinnedNLL_call ex_binned_step []
     \<noteq> Inr (spec_extended_binned_cost [Fin 1, Fin 1] [Fin 1, Fin 0])"
proof -
  have mu: "ExtendedBinnedNLL_mu ex_binned_step [] = Inr [Fin 1, Fin 0]"
    by (simp add: ExtendedBinnedNLL_mu_def ex_binned_step_def minus_npfloat_def)
  have g: "np_log (Fin 1 + tiny) = Fin (ln (1 + tiny_val))"
    "np_log (Fin 0 + tiny) = Fin (ln tiny_val)"
    using guard_pos[of 1] guard_pos[of 0] by simp_all
  have call: "ExtendedBinnedNLL_call ex_binned_step [] =
     Inr (Fin (2 * (1 - 1 + 1 * (ln (1 + tiny_val) - ln (1 + tiny_val)) +
                    (0 - 1 + 1 * (ln (1 + tiny_val) - ln tiny_val) + 0))))"
  proof -
    have f: "u_masked ex_binned_step = A1 [Fin 1, Fin 1]" "\<not> weighted ex_binned_step"
      by (simp_all add: weighted_def ndim_def ex_binned_step_def)
    show ?thesis
      by (simp add: ExtendedBinnedNLL_call_def mu f sum_log_poisson_def log_poisson_part_def
            broadcast2_def g minus_npfloat_def)
  qed
  have spec: "spec_extended_binned_cost [Fin 1, Fin 1] [Fin 1, Fin 0] = PInf"
    by (simp add: spec_extended_binned_cost_def minus_npfloat_def)
  from ex_binned_step_init mu call spec show ?thesis by simp
qed

subsection \<open>Weighted contents\<close>

lemma column_stack4_map:
  "column_stack4 (map f rows) (map g rows) (map h rows) (map k rows) =
     map (\<lambda>r. [f r, g r, h r, k r]) rows"
  by (induction rows) (auto simp: column_stack4_def)

lemma bohm_zech_rows: "bohm_zech (A2 k rows) = A2 4 (map bz_row rows)"
proof -
  have s: "map2 (/) (column 0 rows) (map (\<lambda>x. x + tiny) (column 1 rows)) =
      map (\<lambda>r. r ! 0 / (r ! 1 + tiny)) rows"
    by (induction rows) (auto simp: column_def)
  have vs: "map2 (*) (column 0 rows) (map (\<lambda>r. r ! 0 / (r ! 1 + tiny)) rows) =
      map (\<lambda>r. r ! 0 * (r ! 0 / (r ! 1 + tiny))) rows"
    by (induction rows) (auto simp: column_def)
  show ?thesis
    unfolding bohm_zech.simps Let_def s vs
    by (simp add: column_def column_stack4_map bz_row_def)
qed

lemma prepare_data_weighted:
  assumes "prepare_data xe (A2 k rows) = Inr d"
  shows "k = 2 \<and> length rows + 1 = length xe \<and> d = A2 4 (map bz_row rows)"
  using assms
  by (auto simp: prepare_data_def Let_def ndim_def bohm_zech_rows simp del: bohm_zech.simps
           split: if_splits)

lemma prepare_data_weighted_ok:
  assumes "length rows + 1 = length xe"
  shows "prepare_data xe (A2 2 rows) = Inr (A2 4 (map bz_row rows))"
  using assms
  by (simp add: prepare_data_def Let_def ndim_def bohm_zech_rows del: bohm_zech.simps)

lemma columns_bz:
  "column 0 (map bz_row rows) = map (\<lambda>r. r ! 0) rows"
  "column 1 (map bz_row rows) = map (\<lambda>r. r ! 1) rows"
  "column 2 (map bz_row rows) = map (\<lambda>r. r ! 0 * (r ! 0 / (r ! 1 + tiny))) rows"
  "column 3 (map bz_row rows) = map (\<lambda>r. r ! 0 / (r ! 1 + tiny)) rows"
  by (simp_all add: column_def bz_row_def)

lemma BinnedNLL_call_weighted_value:
  assumes "BinnedNLL_prob c args = Inr prob" "weighted c" "u_masked c = A2 4 rows"
    "length rows = length prob"
  shows "BinnedNLL_call c args =
     Inr (Fin 2 * np_sum (map2 (\<lambda>n m. n * (np_log (n + tiny) - np_log (m + tiny)))
            (column 2 rows)
            (map2 (*) (map (\<lambda>p. np_sum (column 0 rows) * p) prob) (column 3 rows))))"
proof -
  let ?mu = "map2 (*) (map (\<lambda>p. np_sum (column 0 rows) * p) prob) (column 3 rows)"
  have im: "imul (map (\<lambda>p. np_sum (column 0 rows) * p) prob) (column 3 rows) = Inr ?mu"
    using assms(4) by (simp add: imul_def column_def)
  have len: "length (column 2 rows) = length ?mu"
    using assms(4) by (simp add: column_def)
  show ?thesis
    using assms(1-3) im
    by (simp add: BinnedNLL_call_def sum_log_poisson_part_same[OF len])
qed

text \<open>
  C9 (amended). A binned term constructed from weighted contents, pairs \<open>(v, var)\<close> of
  weight sum and squared-weight sum, stores per bin the four columns
  \<open>v, var, v * s, s\<close> with the scale \<open>s = v / (var + 1e-323)\<close>: for the pairs
  \<open>(10, 4)\<close> and \<open>(20, 9)\<close> the scales are \<open>10 / (4 + 1e-323)\<close> and
  \<open>20 / (9 + 1e-323)\<close>. In a call of BinnedNLL the expected counts
  \<open>sum(v) * prob\<close> are multiplied bin by bin by the stored scale, and the stored
  effective count \<open>v * s\<close> is the count that enters the cost.
\<close>

theorem weighted_bohm_zech_scale:
  assumes init: "BinnedCost_init (A2 k rows) xe model names vb = Inr c"
    and out: "length (model xe args) = length xe"
  shows "k = 2 \<and> weighted c \<and>
         u_data c = A2 4 (map bz_row rows) \<and>
         col 3 (u_data c) = Inr (map (\<lambda>r. r ! 0 / (r ! 1 + tiny)) rows) \<and>
         col 2 (u_data c) = Inr (map (\<lambda>r. r ! 0 * (r ! 0 / (r ! 1 + tiny))) rows) \<and>
         col 0 (u_data c) = Inr (map (\<lambda>r. r ! 0) rows) \<and>
         BinnedNLL_call c args =
           Inr (Fin 2 * np_sum (map2 (\<lambda>n m. n * (np_log (n + tiny) - np_log (m + tiny)))
                  (map (\<lambda>r. r ! 0 * (r ! 0 / (r ! 1 + tiny))) rows)
                  (map2 (*) (map (\<lambda>p. np_sum (map (\<lambda>r. r ! 0) rows) * p) (np_diff (model xe args)))
                     (map (\<lambda>r. r ! 0 / (r ! 1 + tiny)) rows))))"
proof -
  from BinnedCost_init_inv[OF init] have
    c: "u_mask c = None" "u_xe c = xe" "b_model c = model"
      "prepare_data xe (A2 k rows) = Inr (u_data c)" "consistent c"
    by (simp_all add: binned_inv_def)
  from prepare_data_weighted[OF c(4)] have
    k: "k = 2" and l: "length rows + 1 = length xe" and d: "u_data c = A2 4 (map bz_row rows)"
    by simp_all
  from d have w: "weighted c" by (simp add: weighted_def ndim_def)
  from c(1,5) d have m: "u_masked c = A2 4 (map bz_row rows)"
    by (simp add: consistent_def masked_view_def)
  have prob: "BinnedNLL_prob c args = Inr (np_diff (model xe args))"
    by (simp add: BinnedNLL_prob_def c)
  have len: "length (map bz_row rows) = length (np_diff (model xe args))"
    using l out by (simp add: length_np_diff)
  from BinnedNLL_call_weighted_value[OF prob w m len] k w d show ?thesis
    by (simp add: columns_bz)
qed

theorem weighted_bohm_zech_scale_witness:
  "BinnedCost_init (A2 2 [[Fin 10, Fin 4], [Fin 20, Fin 9]]) [Fin 0, Fin 1, Fin 2] cdf_uniform
     [''xe''] 0 = Inr ex_weighted \<and>
   col 3 (u_data ex_weighted) = Inr [Fin 10 / (Fin 4 + tiny), Fin 20 / (Fin 9 + tiny)] \<and>
   col 2 (u_data ex_weighted) =
     Inr [Fin 10 * (Fin 10 / (Fin 4 + tiny)), Fin 20 * (Fin 20 / (Fin 9 + tiny))] \<and>
   BinnedNLL_call ex_weighted [] =
     Inr (Fin 2 * np_sum (map2 (\<lambda>n m. n * (np_log (n + tiny) - np_log (m + tiny)))
            [Fin 10 * (Fin 10 / (Fin 4 + tiny)), Fin 20 * (Fin 20 / (Fin 9 + tiny))]
            [Fin 15 * (Fin 10 / (Fin 4 + tiny)), Fin 15 * (Fin 20 / (Fin 9 + tiny))]))"
proof -
  have out: "length (cdf_uniform [Fin 0, Fin 1, Fin 2] []) = length [Fin 0, Fin 1, Fin 2]"
    by simp
  from weighted_bohm_zech_scale[OF ex_weighted_init out] ex_weighted_init show ?thesis
    by (simp add: minus_npfloat_def column_def bz_row_def)
qed

text \<open>
  C9 as stated fails at an empty bin: for the pair \<open>(0, 0)\<close> the stored scale is
  \<open>0 / (0 + 1e-323) = 0\<close>, while weight-sum / weight-squared-sum is \<open>0 / 0\<close>, not a
  number.
\<close>

theorem weighted_scale_counterexample:
  "prepare_data [Fin 0, Fin 1] (A2 2 [[Fin 0, Fin 0]]) = Inr (A2 4 [[Fin 0, Fin 0, Fin 0, Fin 0]]) \<and>
   col 3 (A2 4 [[Fin 0, Fin 0, Fin 0, Fin 0]]) = Inr [Fin 0] \<and>
   Fin 0 / Fin 0 = NaN \<and>
   col 3 (A2 4 [[Fin 0, Fin 0, Fin 0, Fin 0]]) \<noteq> Inr [Fin 0 / Fin 0]"
proof -
  have "Fin 0 / (Fin 0 + tiny) = Fin 0"
    using tiny_val_pos by (simp add: tiny_def)
  then have "prepare_data [Fin 0, Fin 1] (A2 2 [[Fin 0, Fin 0]]) =
      Inr (A2 4 [[Fin 0, Fin 0, Fin 0, Fin 0]])"
    by (simp add: prepare_data_weighted_ok bz_row_def)
  then show ?thesis by (simp add: column_def)
qed

subsection \<open>The data property of a weighted term\<close>

lemma take_2_bz_row: "length r = 2 \<Longrightarrow> take 2 (bz_row r) = r"
proof -
  assume "length r = 2"
  then obtain a b where "r = [a, b]"
    by (cases r; cases "tl r") auto
  then show ?thesis by (simp add: bz_row_def)
qed

lemma first_two_columns_bz:
  assumes "list_all (\<lambda>r. length r = 2) rows"
  shows "first_two_columns (A2 4 (map bz_row rows)) = A2 2 rows"
proof -
  from assms have "map (take 2 \<circ> bz_row) rows = rows"
    by (induction rows) (auto simp: take_2_bz_row simp del: take_Suc_Cons)
  then show ?thesis by simp
qed

text \<open>
  C10. A binned term constructed from a weighted array \<open>W\<close> of shape \<open>(N, 2)\<close> is
  weighted, and its \<open>data\<close> property is \<open>W\<close> again: the first two of the four stored
  columns, two columns wide.
\<close>

theorem BinnedCost_data_roundtrip:
  assumes "BinnedCost_init (A2 k rows) xe model names vb = Inr c"
    and "wf_array (A2 k rows)"
  shows "weighted c \<and> BinnedCost_data c = A2 k rows \<and> shape (BinnedCost_data c) = [length rows, 2] \<and>
         shape (u_data c) = [length rows, 4]"
proof -
  from BinnedCost_init_inv[OF assms(1)] have "prepare_data xe (A2 k rows) = Inr (u_data c)"
    by simp
  from prepare_data_weighted[OF this] have k: "k = 2" and d: "u_data c = A2 4 (map bz_row rows)"
    by simp_all
  from d have w: "weighted c" by (simp add: weighted_def ndim_def)
  from assms(2) k have "list_all (\<lambda>r. length r = 2) rows" by simp
  from first_two_columns_bz[OF this] w d k show ?thesis
    by (simp add: BinnedCost_data_def)
qed

theorem BinnedCost_data_roundtrip_witness:
  "wf_array (A2 2 [[Fin 10, Fin 4], [Fin 20, Fin 9]]) \<and>
   BinnedCost_init (A2 2 [[Fin 10, Fin 4], [Fin 20, Fin 9]]) [Fin 0, Fin 1, Fin 2] cdf_uniform
     [''xe''] 0 = Inr ex_weighted \<and>
   BinnedCost_data ex_weighted = A2 2 [[Fin 10, Fin 4], [Fin 20, Fin 9]] \<and>
   shape (u_data ex_weighted) = [2, 4]"
proof -
  have wf: "wf_array (A2 2 [[Fin 10, Fin 4], [Fin 20, Fin 9]])" by simp
  from BinnedCost_data_roundtrip[OF ex_weighted_init wf] ex_weighted_init wf show ?thesis
    by simp
qed

subsection \<open>Validation of bin contents and of the loss\<close>

lemma prepare_data_valid:
  "(\<exists>e. prepare_data xe n = Inl e) = (\<not> valid_contents xe n)"
  by (cases n)
     (auto simp: prepare_data_def valid_contents_def Let_def ndim_def simp del: bohm_zech.simps)

lemma prepare_data_plain:
  "valid_contents xe n \<Longrightarrow> ndim (norm_arr n) = 1 \<Longrightarrow> prepare_data xe n = Inr (norm_arr n)"
  by (cases n) (auto simp: prepare_data_def valid_contents_def Let_def ndim_def)

lemma BinnedCost_init_valid:
  "(\<exists>e. BinnedCost_init n xe model names vb = Inl e) = (\<not> valid_contents xe n)"
proof -
  have "(\<exists>e. BinnedCost_init n xe model names vb = Inl e) = (\<exists>e. prepare_data xe n = Inl e)"
    by (cases "prepare_data xe n") (simp_all add: BinnedCost_init_def)
  then show ?thesis by (simp add: prepare_data_valid)
qed

lemma BinnedCost_set_data_invalid:
  assumes "\<not> valid_contents (u_xe c) n"
  shows "\<exists>e. BinnedCost_set_data n c = Inl e"
proof -
  from assms prepare_data_valid[of "u_xe c" n] obtain e where "prepare_data (u_xe c) n = Inl e"
    by blast
  then show ?thesis by (simp add: BinnedCost_set_data_def)
qed

lemma loss_cost_valid:
  "(\<exists>e. loss_cost (LossName s) = Inl e) = (s \<noteq> ''linear'' \<and> s \<noteq> ''soft_l1'')"
  by simp

lemma LeastSquares_init_unknown_loss:
  assumes "s \<noteq> ''linear''" "s \<noteq> ''soft_l1''"
  shows "LeastSquares_init x y ye model (LossName s) names vb
           = Inl (ValueError (''unknown loss type: '' @ s))"
  using assms by (simp add: LeastSquares_init_def)

lemma masked_view_same_len:
  assumes "masked_view d mk = Inr a" "len d = len d'" "ndim d = ndim d'"
  shows "\<exists>a'. masked_view d' mk = Inr a'"
proof (cases mk)
  case None
  then show ?thesis by (simp add: masked_view_def)
next
  case (Some m)
  show ?thesis
  proof (cases d)
    case (A0 x)
    with assms Some show ?thesis by (simp add: masked_view_def)
  next
    case (A1 xs)
    with assms(2,3) obtain ys where d': "d' = A1 ys" "length xs = length ys"
      by (cases d') (auto simp: ndim_def)
    from assms(1) A1 Some obtain v where "np_take xs m = Inr v"
      by (auto simp: masked_view_def bind_err_def split: sum.splits)
    from np_take_same_length[OF d'(2) this] d'(1) Some show ?thesis
      by (auto simp: masked_view_def)
  next
    case (A2 k rows)
    with assms(2,3) obtain k' rows' where d': "d' = A2 k' rows'" "length rows = length rows'"
      by (cases d') (auto simp: ndim_def)
    from assms(1) A2 Some obtain v where "np_take rows m = Inr v"
      by (auto simp: masked_view_def bind_err_def split: sum.splits)
    from np_take_same_length[OF d'(2) this] d'(1) Some show ?thesis
      by (auto simp: masked_view_def)
  qed
qed

lemma map_stretch_id:
  "list_all (\<lambda>r. length r = k) rows \<Longrightarrow> map (stretch k) rows = rows"
  by (induction rows) auto

lemma BinnedCost_set_data_same_kind:
  assumes inv: "binned_inv c"
    and valid: "valid_contents (u_xe c) n"
    and kind: "(ndim (norm_arr n) = 2) = weighted c"
  shows "\<exists>c' d. prepare_data (u_xe c) n = Inr d \<and> BinnedCost_set_data n c = Inr c' \<and>
           u_data c' = d"
proof -
  from valid prepare_data_valid[of "u_xe c" n] obtain d where d: "prepare_data (u_xe c) n = Inr d"
    by (cases "prepare_data (u_xe c) n") auto
  from prepare_data_shape[OF d] have sd: "binned_shape (u_xe c) d" .
  from inv have so: "binned_shape (u_xe c) (u_data c)"
    and view: "masked_view (u_data c) (u_mask c) = Inr (u_masked c)"
    by (simp_all add: binned_inv_def consistent_def)
  have same: "ndim d = ndim (u_data c)"
  proof (cases n)
    case (A0 x)
    with d kind so show ?thesis
      by (cases "u_data c")
         (auto simp: prepare_data_def Let_def ndim_def weighted_def split: if_splits)
  next
    case (A1 ns)
    with d kind so show ?thesis
      by (cases "u_data c")
         (auto simp: prepare_data_def Let_def ndim_def weighted_def split: if_splits)
  next
    case (A2 k rows)
    with d have "d = A2 4 (map bz_row rows)"
      using prepare_data_weighted by blast
    with A2 kind so show ?thesis
      by (cases "u_data c") (auto simp: ndim_def weighted_def)
  qed
  have asg: "assign_all (u_data c) d = Inr d"
  proof (cases d)
    case (A0 x)
    with sd show ?thesis by simp
  next
    case (A1 ns)
    with same so sd show ?thesis
      by (cases "u_data c") (auto simp: ndim_def)
  next
    case (A2 k rows)
    with same so sd show ?thesis
      by (cases "u_data c") (auto simp: ndim_def map_stretch_id)
  qed
  have "len (u_data c) = len d"
    using same so sd by (cases "u_data c"; cases d) (auto simp: ndim_def)
  from masked_view_same_len[OF view this same[symmetric]] obtain a
    where "masked_view d (u_mask c) = Inr a" by blast
  then have "\<exists>c'. set_data d c = Inr c' \<and> u_data c' = d"
    by (simp add: set_data_def asg update_masked_def)
  with d show ?thesis by (auto simp: BinnedCost_set_data_def)
qed

text \<open>
  C8 (amended). The constructor of a binned term raises exactly when the bin contents
  are invalid: their shape is incompatible with the bin edges, or they are weighted with
  a trailing dimension other than 2. Plain valid counts are stored as they are given.
  Data assignment raises whenever the new contents are invalid in that sense, and
  accepts valid contents of the kind the term holds (plain for a term holding plain
  counts, weighted for a weighted one), storing what the constructor would store.
  The loss of LeastSquares raises exactly for a string other than \<open>linear\<close> and
  \<open>soft_l1\<close>, and the constructor raises for such a string.
\<close>

theorem validation_errors:
  "((\<exists>e. BinnedCost_init n xe model names vb = Inl e) = (\<not> valid_contents xe n)) \<and>
   (valid_contents xe n \<and> ndim (norm_arr n) = 1 \<longrightarrow>
      (\<exists>c. BinnedCost_init n xe model names vb = Inr c \<and> u_data c = norm_arr n)) \<and>
   (\<not> valid_contents (u_xe c) n \<longrightarrow> (\<exists>e. BinnedCost_set_data n c = Inl e)) \<and>
   (binned_inv c \<and> valid_contents (u_xe c) n \<and> (ndim (norm_arr n) = 2) = weighted c \<longrightarrow>
      (\<exists>c' d. prepare_data (u_xe c) n = Inr d \<and> BinnedCost_set_data n c = Inr c' \<and>
         u_data c' = d)) \<and>
   ((\<exists>e. loss_cost (LossName s) = Inl e) = (s \<noteq> ''linear'' \<and> s \<noteq> ''soft_l1'')) \<and>
   (s \<noteq> ''linear'' \<and> s \<noteq> ''soft_l1'' \<longrightarrow>
      LeastSquares_init x y ye lmodel (LossName s) names vb
        = Inl (ValueError (''unknown loss type: '' @ s)))"
proof (intro conjI impI)
  show "(\<exists>e. BinnedCost_init n xe model names vb = Inl e) = (\<not> valid_contents xe n)"
    by (rule BinnedCost_init_valid)
  show "\<exists>c. BinnedCost_init n xe model names vb = Inr c \<and> u_data c = norm_arr n"
    if "valid_contents xe n \<and> ndim (norm_arr n) = 1"
    using that prepare_data_plain[of xe n] by (simp add: BinnedCost_init_def)
  show "\<exists>e. BinnedCost_set_data n c = Inl e" if "\<not> valid_contents (u_xe c) n"
    using that by (rule BinnedCost_set_data_invalid)
  show "\<exists>c' d. prepare_data (u_xe c) n = Inr d \<and> BinnedCost_set_data n c = Inr c' \<and> u_data c' = d"
    if "binned_inv c \<and> valid_contents (u_xe c) n \<and> (ndim (norm_arr n) = 2) = weighted c"
    using that BinnedCost_set_data_same_kind by blast
  show "(\<exists>e. loss_cost (LossName s) = Inl e) = (s \<noteq> ''linear'' \<and> s \<noteq> ''soft_l1'')"
    by (rule loss_cost_valid)
  show "LeastSquares_init x y ye lmodel (LossName s) names vb
          = Inl (ValueError (''unknown loss type: '' @ s))"
    if "s \<noteq> ''linear'' \<and> s \<noteq> ''soft_l1''"
    using that LeastSquares_init_unknown_loss by blast
qed

lemma ex_binned_step_inv: "binned_inv ex_binned_step"
  using BinnedCost_init_inv[OF ex_binned_step_init] by simp

theorem validation_errors_witness:
  "(\<exists>c. BinnedCost_init (A1 [Fin 1, Fin 1]) [Fin 0, Fin 1, Fin 2] cdf_step [''xe''] 0 = Inr c \<and>
        u_data c = A1 [Fin 1, Fin 1]) \<and>
   (\<exists>e. BinnedCost_init (A1 [Fin 1]) [Fin 0, Fin 1, Fin 2] cdf_step [''xe''] 0 = Inl e) \<and>
   (\<exists>e. BinnedCost_set_data (A2 3 [[Fin 1, Fin 1, Fin 1], [Fin 1, Fin 1, Fin 1]]) ex_binned_step
        = Inl e) \<and>
   (\<exists>c'. BinnedCost_set_data (A1 [Fin 2, Fin 2]) ex_binned_step = Inr c' \<and>
         u_data c' = A1 [Fin 2, Fin 2]) \<and>
   (\<exists>c'. BinnedCost_set_data (A2 2 [[Fin 1, Fin 1], [Fin 2, Fin 4]]) ex_weighted = Inr c' \<and>
         u_data c' = A2 4 [bz_row [Fin 1, Fin 1], bz_row [Fin 2, Fin 4]]) \<and>
   LeastSquares_init (A1 [Fin 1]) [Fin 1] (Inl (Fin 1)) lsq_line (LossName ''cauchy'') [''x'', ''a''] 0
     = Inl (ValueError ''unknown loss type: cauchy'')"
proof -
  note T = validation_errors
  let ?xe = "[Fin 0, Fin 1, Fin 2]"
  have v1: "valid_contents ?xe (A1 [Fin 1, Fin 1]) \<and> ndim (norm_arr (A1 [Fin 1, Fin 1])) = 1"
    by (simp add: valid_contents_def ndim_def)
  from T[where n = "A1 [Fin 1, Fin 1]" and xe = ?xe and model = cdf_step and names = "[''xe'']"
           and vb = 0, THEN conjunct2, THEN conjunct1] v1
  have 1: "\<exists>c. BinnedCost_init (A1 [Fin 1, Fin 1]) ?xe cdf_step [''xe''] 0 = Inr c \<and>
        u_data c = A1 [Fin 1, Fin 1]"
    by simp
  have v2: "\<not> valid_contents ?xe (A1 [Fin 1])"
    by (simp add: valid_contents_def)
  from T[where n = "A1 [Fin 1]" and xe = ?xe and model = cdf_step and names = "[''xe'']"
           and vb = 0, THEN conjunct1] v2
  have 2: "\<exists>e. BinnedCost_init (A1 [Fin 1]) ?xe cdf_step [''xe''] 0 = Inl e"
    by simp
  have v3: "\<not> valid_contents (u_xe ex_binned_step)
                (A2 3 [[Fin 1, Fin 1, Fin 1], [Fin 1, Fin 1, Fin 1]])"
    by (simp add: valid_contents_def ex_binned_step_def)
  from T[where n = "A2 3 [[Fin 1, Fin 1, Fin 1], [Fin 1, Fin 1, Fin 1]]" and c = ex_binned_step,
         THEN conjunct2, THEN conjunct2, THEN conjunct1] v3
  have 3: "\<exists>e. BinnedCost_set_data (A2 3 [[Fin 1, Fin 1, Fin 1], [Fin 1, Fin 1, Fin 1]])
                ex_binned_step = Inl e"
    by simp
  have v4: "binned_inv ex_binned_step \<and>
      valid_contents (u_xe ex_binned_step) (A1 [Fin 2, Fin 2]) \<and>
      (ndim (norm_arr (A1 [Fin 2, Fin 2])) = 2) = weighted ex_binned_step"
    using ex_binned_step_inv
    by (simp add: valid_contents_def ndim_def weighted_def ex_binned_step_def)
  from T[where n = "A1 [Fin 2, Fin 2]" and c = ex_binned_step,
         THEN conjunct2, THEN conjunct2, THEN conjunct2, THEN conjunct1] v4
  have 4: "\<exists>c'. BinnedCost_set_data (A1 [Fin 2, Fin 2]) ex_binned_step = Inr c' \<and>
         u_data c' = A1 [Fin 2, Fin 2]"
    by (auto simp: prepare_data_def ndim_def ex_binned_step_def)
  have v5: "binned_inv ex_weighted \<and>
      valid_contents (u_xe ex_weighted) (A2 2 [[Fin 1, Fin 1], [Fin 2, Fin 4]]) \<and>
      (ndim (norm_arr (A2 2 [[Fin 1, Fin 1], [Fin 2, Fin 4]])) = 2) = weighted ex_weighted"
    using ex_weighted_inv
    by (simp add: valid_contents_def ndim_def weighted_def ex_weighted_def
          ex_weighted_data_def bohm_zech_rows del: bohm_zech.simps)
  from T[where n = "A2 2 [[Fin 1, Fin 1], [Fin 2, Fin 4]]" and c = ex_weighted,
         THEN conjunct2, THEN conjunct2, THEN conjunct2, THEN conjunct1] v5
  have 5: "\<exists>c'. BinnedCost_set_data (A2 2 [[Fin 1, Fin 1], [Fin 2, Fin 4]]) ex_weighted = Inr c' \<and>
         u_data c' = A2 4 [bz_row [Fin 1, Fin 1], bz_row [Fin 2, Fin 4]]"
    by (auto simp: prepare_data_weighted_ok ex_weighted_def)
  from T[where s = "''cauchy''" and x = "A1 [Fin 1]" and y = "[Fin 1]" and ye = "Inl (Fin 1)"
           and lmodel = lsq_line and names = "[''x'', ''a'']" and vb = 0,
         THEN conjunct2, THEN conjunct2, THEN conjunct2, THEN conjunct2, THEN conjunct2]
  have 6: "LeastSquares_init (A1 [Fin 1]) [Fin 1] (Inl (Fin 1)) lsq_line (LossName ''cauchy'')
             [''x'', ''a''] 0 = Inl (ValueError ''unknown loss type: cauchy'')"
    by simp
  from 1 2 3 4 5 6 show ?thesis by blast
qed

text \<open>
  C8 as stated fails for data assignment: a term constructed from the plain counts
  \<open>[1, 1]\<close> with edges \<open>[0, 1, 2]\<close> raises ValueError when it is assigned the
  weighted contents with rows \<open>(1, 1)\<close> and \<open>(1, 1)\<close>, which are valid: two rows for
  three edges, trailing dimension 2. The prepared array of shape \<open>(2, 4)\<close> cannot be
  written into the stored array of shape \<open>(2,)\<close>.
\<close>

theorem set_data_valid_raises_counterexample:
  "BinnedCost_init (A1 [Fin 1, Fin 1]) [Fin 0, Fin 1, Fin 2] cdf_step [''xe''] 0
     = Inr ex_binned_step \<and>
   valid_contents (u_xe ex_binned_step) (A2 2 [[Fin 1, Fin 1], [Fin 1, Fin 1]]) \<and>
   BinnedCost_set_data (A2 2 [[Fin 1, Fin 1], [Fin 1, Fin 1]]) ex_binned_step
     = Inl (ValueError ''could not broadcast input array'')"
proof -
  have "prepare_data (u_xe ex_binned_step) (A2 2 [[Fin 1, Fin 1], [Fin 1, Fin 1]]) =
      Inr (A2 4 (map bz_row [[Fin 1, Fin 1], [Fin 1, Fin 1]]))"
    by (rule prepare_data_weighted_ok) (simp add: ex_binned_step_def)
  then have "BinnedCost_set_data (A2 2 [[Fin 1, Fin 1], [Fin 1, Fin 1]]) ex_binned_step
      = Inl (ValueError ''could not broadcast input array'')"
    by (simp add: BinnedCost_set_data_def set_data_def ex_binned_step_def)
  with ex_binned_step_init show ?thesis
    by (simp add: valid_contents_def ex_binned_step_def)
qed

subsection \<open>LeastSquares\<close>

lemma z_map:
  "length ys = length ye \<Longrightarrow> length ye = length ym \<Longrightarrow>
     map (\<lambda>v. v * v) (map2 (/) (map2 (-) ys ym) ye) =
     map (\<lambda>(y, e, m). ((y - m) / e) * ((y - m) / e)) (zip ys (zip ye ym))"
  by (induction ys ye ym rule: list_induct3) auto

lemma z_squared_same:
  assumes "length ys = length ym" "length ye = length ym"
  shows "z_squared ys ye ym =
           Inr (map (\<lambda>(y, e, m). ((y - m) / e) * ((y - m) / e)) (zip ys (zip ye ym)))"
proof -
  have l2: "length (map2 (-) ys ym) = length ye"
    using assms by simp
  have "z_squared ys ye ym = Inr (map (\<lambda>v. v * v) (map2 (/) (map2 (-) ys ym) ye))"
    unfolding z_squared_def broadcast2_same[OF assms(1)] bind_err_simps broadcast2_same[OF l2] ..
  moreover have "length ys = length ye"
    using assms by simp
  ultimately show ?thesis
    by (simp only: z_map[OF _ assms(2)])
qed

lemma drop_columns:
  "drop nd (map f [0..<nd + 2]) = [f nd, f (nd + 1)]"
  by (simp add: drop_map upt_conv_Cons)

lemma take_columns:
  "take nd (map f [0..<nd + 2]) = map f [0..<nd]"
  by (simp add: take_map)

lemma hd_columns: "hd (map f [0..<nd + 2]) = f 0"
  by (simp add: upt_conv_Cons del: upt_Suc)

lemma LeastSquares_call_value:
  assumes view: "u_masked c = A2 (ls_ndim c + 2) rows"
  shows "LeastSquares_call c args =
     ls_cost c (column (ls_ndim c) rows) (column (ls_ndim c + 1) rows)
       (ls_model c (if ls_ndim c = 1 then A1 (column 0 rows)
                    else A2 (length rows) (map (\<lambda>j. column j rows) [0..<ls_ndim c])) args)"
proof -
  let ?t = "map (\<lambda>j. column j rows) [0..<ls_ndim c + 2]"
  have d: "drop (ls_ndim c) ?t = [column (ls_ndim c) rows, column (ls_ndim c + 1) rows]"
    by (rule drop_columns)
  have t: "take (ls_ndim c) ?t = map (\<lambda>j. column j rows) [0..<ls_ndim c]"
    by (rule take_columns)
  have h: "hd ?t = column 0 rows"
    by (rule hd_columns)
  show ?thesis
    unfolding LeastSquares_call_def view ndarray.case Let_def d t h
    by simp
qed

lemma LeastSquares_init_inv:
  assumes "LeastSquares_init x y ye model l names vb = Inr c"
  shows "lsq_inv c \<and> ls_loss c = l \<and> ls_model c = model \<and> ls_ndim c = ndim (norm_arr x) \<and>
         u_mask c = None \<and> u_masked c = u_data c"
  using assms
  by (auto simp: LeastSquares_init_def Let_def lsq_inv_def consistent_def masked_view_def
        bind_err_def split: sum.splits)

lemma set_mask_lsq_inv:
  assumes "lsq_inv c" "set_mask m c = Inr c'"
  shows "lsq_inv c' \<and> ls_loss c' = ls_loss c \<and> ls_model c' = ls_model c \<and>
         ls_ndim c' = ls_ndim c \<and> u_data c' = u_data c"
proof -
  from assms(2) have "ls_loss c' = ls_loss c \<and> ls_cost c' = ls_cost c \<and>
      ls_model c' = ls_model c \<and> ls_ndim c' = ls_ndim c"
    by (auto simp: set_mask_def update_masked_def bind_err_def split: sum.splits)
  with set_mask_consistent[OF assms(2)] assms(1) show ?thesis
    by (simp add: lsq_inv_def)
qed

lemma set_loss_lsq_inv:
  assumes "lsq_inv c" "set_loss l c = Inr c'"
  shows "lsq_inv c' \<and> ls_loss c' = l"
  using assms
  by (auto simp: set_loss_def lsq_inv_def consistent_def bind_err_def split: sum.splits)

lemma soft_l1_finite: "0 \<le> s \<Longrightarrow> soft_l1 (Fin s) = Fin (2 * (sqrt (1 + s) - 1))"
  by (simp add: soft_l1_def minus_npfloat_def)

lemma soft_l1_first_order:
  fixes s :: real
  assumes "0 \<le> s"
  shows "0 \<le> s - 2 * (sqrt (1 + s) - 1)" and "s - 2 * (sqrt (1 + s) - 1) \<le> s\<^sup>2 / 4"
proof -
  define u where "u = sqrt (1 + s)"
  have u2: "u\<^sup>2 = 1 + s"
    using assms by (simp add: u_def)
  have u1: "1 \<le> u"
    using assms by (simp add: u_def)
  have "1 + s \<le> (1 + s / 2)\<^sup>2"
    by (simp add: power2_eq_square algebra_simps)
  then have uh: "u \<le> 1 + s / 2"
    unfolding u_def using assms by (intro real_le_lsqrt) auto
  have eq: "s - 2 * (u - 1) = (u - 1)\<^sup>2"
    using u2 by (simp add: power2_eq_square algebra_simps)
  have "(u - 1)\<^sup>2 \<le> (s / 2)\<^sup>2"
    using u1 uh by (intro power_mono) auto
  then have le: "(u - 1)\<^sup>2 \<le> s\<^sup>2 / 4"
    by (simp add: power2_eq_square)
  show "0 \<le> s - 2 * (sqrt (1 + s) - 1)"
    using eq by (simp add: u_def[symmetric])
  show "s - 2 * (sqrt (1 + s) - 1) \<le> s\<^sup>2 / 4"
    using eq le by (simp add: u_def[symmetric])
qed

text \<open>
  The losses where the call reaches them: a term in order whose view has \<^verbatim>\<open>_ndim\<close>
  columns of \<open>x\<close> followed by exactly the two columns \<open>y\<close> and \<open>yerror\<close>, with a model
  that returns one value \<open>ym\<close> per active point. A term constructed from a
  one-dimensional \<open>x\<close> has such a view (lemma \<open>LeastSquares_init_view\<close> below), and so
  has one constructed from \<open>x\<close> of shape \<open>(2, N)\<close>; a term constructed from \<open>x\<close> of
  another shape \<open>(D, N)\<close> has not (lemma \<open>LeastSquares_init_2d_raises\<close> below).
  With \<open>z = (y - ym) / yerror\<close> per point, the loss
  \<open>linear\<close> returns \<open>sum(z * z)\<close> and the loss \<open>soft_l1\<close> returns
  \<open>sum(2 * (sqrt(1 + z * z) - 1))\<close>. The two losses agree to first order: on a
  squared residual \<open>s = z * z\<close> the soft loss is \<open>2 * (sqrt(1 + s) - 1)\<close>, which lies
  between \<open>s - s\<^sup>2 / 4\<close> and \<open>s\<close>.
\<close>

theorem LeastSquares_call_loss:
  assumes inv: "lsq_inv c"
    and view: "u_masked c = A2 (ls_ndim c + 2) rows"
    and x: "x = (if ls_ndim c = 1 then A1 (column 0 rows)
                 else A2 (length rows) (map (\<lambda>j. column j rows) [0..<ls_ndim c]))"
    and ys: "ys = column (ls_ndim c) rows"
    and ye: "ye = column (ls_ndim c + 1) rows"
    and ym: "ym = ls_model c x args"
    and out: "length ym = length rows"
  shows "(ls_loss c = LossName ''linear'' \<longrightarrow>
            LeastSquares_call c args =
              Inr (np_sum (map (\<lambda>(y, e, m). ((y - m) / e) * ((y - m) / e))
                            (zip ys (zip ye ym))))) \<and>
         (ls_loss c = LossName ''soft_l1'' \<longrightarrow>
            LeastSquares_call c args =
              Inr (np_sum (map (\<lambda>(y, e, m).
                      Fin 2 * (np_sqrt (Fin 1 + ((y - m) / e) * ((y - m) / e)) - Fin 1))
                            (zip ys (zip ye ym))))) \<and>
         soft_l1 (Fin (z * z)) = Fin (2 * (sqrt (1 + z * z) - 1)) \<and>
         \<bar>z * z - 2 * (sqrt (1 + z * z) - 1)\<bar> \<le> (z * z)\<^sup>2 / 4"
proof -
  have l: "length ys = length ym" "length ye = length ym"
    using out by (simp_all add: ys ye column_def)
  have call: "LeastSquares_call c args = ls_cost c ys ye ym"
    unfolding ys ye ym x by (rule LeastSquares_call_value[OF view])
  from inv have lc: "loss_cost (ls_loss c) = Inr (ls_cost c)"
    by (simp add: lsq_inv_def)
  have lin: "LeastSquares_call c args =
      Inr (np_sum (map (\<lambda>(y, e, m). ((y - m) / e) * ((y - m) / e)) (zip ys (zip ye ym))))"
    if "ls_loss c = LossName ''linear''"
  proof -
    from lc that have "ls_cost c = sum_z_squared" by simp
    then show ?thesis
      by (simp add: call sum_z_squared_def z_squared_same[OF l])
  qed
  have soft: "LeastSquares_call c args =
      Inr (np_sum (map (\<lambda>(y, e, m).
              Fin 2 * (np_sqrt (Fin 1 + ((y - m) / e) * ((y - m) / e)) - Fin 1))
            (zip ys (zip ye ym))))"
    if "ls_loss c = LossName ''soft_l1''"
  proof -
    from lc that have "ls_cost c = sum_z_squared_soft_l1" by simp
    then show ?thesis
      by (simp add: call sum_z_squared_soft_l1_def z_squared_same[OF l] soft_l1_def
            split_def comp_def)
  qed
  have zz: "0 \<le> z * z" by simp
  from soft_l1_first_order[OF zz] have fo: "\<bar>z * z - 2 * (sqrt (1 + z * z) - 1)\<bar> \<le> (z * z)\<^sup>2 / 4"
    by simp
  from lin soft soft_l1_finite[OF zz] fo show ?thesis by blast
qed

lemma ex_lsq_init:
  "LeastSquares_init (A1 [Fin 1, Fin 2]) [Fin 2, Fin 4] (Inl (Fin 1)) lsq_line
     (LossName ''linear'') [''x'', ''a''] 0 = Inr ex_lsq"
  by (simp add: LeastSquares_init_def broadcast_arrays_def common_length_def column_stack_def
        ex_lsq_def ndim_def upt_conv_Cons Let_def numeral_3_eq_3)

lemma ex_lsq_soft_set: "set_loss (LossName ''soft_l1'') ex_lsq = Inr ex_lsq_soft"
  by (simp add: set_loss_def ex_lsq_soft_def)

theorem LeastSquares_call_loss_witness:
  "LeastSquares_init (A1 [Fin 1, Fin 2]) [Fin 2, Fin 4] (Inl (Fin 1)) lsq_line
     (LossName ''linear'') [''x'', ''a''] 0 = Inr ex_lsq \<and>
   LeastSquares_call ex_lsq [Fin 1] = Inr (Fin 5) \<and>
   set_loss (LossName ''soft_l1'') ex_lsq = Inr ex_lsq_soft \<and>
   LeastSquares_call ex_lsq_soft [Fin 1] = Inr (Fin (2 * (sqrt 2 - 1) + 2 * (sqrt 5 - 1))) \<and>
   \<bar>(1 / 2) * (1 / 2) - 2 * (sqrt (1 + (1 / 2) * (1 / 2)) - 1)\<bar> \<le> ((1 / 2) * (1 / 2))\<^sup>2 / (4 :: real)"
proof -
  let ?rows = "[[Fin 1, Fin 2, Fin 1], [Fin 2, Fin 4, Fin 1]]"
  have inv: "lsq_inv ex_lsq"
    using LeastSquares_init_inv[OF ex_lsq_init] by simp
  have inv': "lsq_inv ex_lsq_soft"
    using set_loss_lsq_inv[OF inv ex_lsq_soft_set] by simp
  have view: "u_masked ex_lsq = A2 (ls_ndim ex_lsq + 2) ?rows"
    by (simp add: ex_lsq_def)
  have view': "u_masked ex_lsq_soft = A2 (ls_ndim ex_lsq_soft + 2) ?rows"
    by (simp add: ex_lsq_soft_def ex_lsq_def)
  have x: "A1 [Fin 1, Fin 2] =
      (if ls_ndim ex_lsq = 1 then A1 (column 0 ?rows)
       else A2 (length ?rows) (map (\<lambda>j. column j ?rows) [0..<ls_ndim ex_lsq]))"
    by (simp add: ex_lsq_def column_def)
  have x': "A1 [Fin 1, Fin 2] =
      (if ls_ndim ex_lsq_soft = 1 then A1 (column 0 ?rows)
       else A2 (length ?rows) (map (\<lambda>j. column j ?rows) [0..<ls_ndim ex_lsq_soft]))"
    by (simp add: ex_lsq_soft_def ex_lsq_def column_def)
  have ys: "[Fin 2, Fin 4] = column (ls_ndim ex_lsq) ?rows"
    "[Fin 2, Fin 4] = column (ls_ndim ex_lsq_soft) ?rows"
    by (simp_all add: ex_lsq_soft_def ex_lsq_def column_def)
  have ye: "[Fin 1, Fin 1] = column (ls_ndim ex_lsq + 1) ?rows"
    "[Fin 1, Fin 1] = column (ls_ndim ex_lsq_soft + 1) ?rows"
    by (simp_all add: ex_lsq_soft_def ex_lsq_def column_def)
  have ym: "[Fin 1, Fin 2] = ls_model ex_lsq (A1 [Fin 1, Fin 2]) [Fin 1]"
    "[Fin 1, Fin 2] = ls_model ex_lsq_soft (A1 [Fin 1, Fin 2]) [Fin 1]"
    by (simp_all add: ex_lsq_soft_def ex_lsq_def)
  have out: "length [Fin 1, Fin 2] = length ?rows" by simp
  have lin: "ls_loss ex_lsq = LossName ''linear''"
    by (simp add: ex_lsq_def)
  have soft: "ls_loss ex_lsq_soft = LossName ''soft_l1''"
    by (simp add: ex_lsq_soft_def)
  from LeastSquares_call_loss[OF inv view x ys(1) ye(1) ym(1) out, of "1 / 2"] lin
  have 1: "LeastSquares_call ex_lsq [Fin 1] = Inr (Fin 5)"
    and 3: "\<bar>(1 / 2) * (1 / 2) - 2 * (sqrt (1 + (1 / 2) * (1 / 2)) - 1)\<bar>
              \<le> ((1 / 2) * (1 / 2))\<^sup>2 / (4 :: real)"
    by (simp_all add: minus_npfloat_def)
  from LeastSquares_call_loss[OF inv' view' x' ys(2) ye(2) ym(2) out, of 0] soft
  have 2: "LeastSquares_call ex_lsq_soft [Fin 1] =
      Inr (Fin (2 * (sqrt 2 - 1) + 2 * (sqrt 5 - 1)))"
    by (simp add: minus_npfloat_def)
  from ex_lsq_init ex_lsq_soft_set 1 2 3 show ?thesis by blast
qed

lemma ex_lsq_3d_init:
  "LeastSquares_init (A2 2 [[Fin 1, Fin 2], [Fin 3, Fin 4], [Fin 5, Fin 6]]) [Fin 1, Fin 2]
     (Inl (Fin 1)) lsq_plane (LossName ''linear'') [''x'', ''a'', ''b'', ''c''] 0 = Inr ex_lsq_3d"
  by (simp add: LeastSquares_init_def broadcast_arrays_def common_length_def column_stack_def
        ex_lsq_3d_def ndim_def upt_conv_Cons Let_def)

lemma ex_lsq_2d_init:
  "LeastSquares_init (A2 2 [[Fin 1, Fin 2], [Fin 3, Fin 4]]) [Fin 4, Fin 7]
     (Inl (Fin 1)) lsq_plane (LossName ''linear'') [''x'', ''a'', ''b''] 0 = Inr ex_lsq_2d"
  by (simp add: LeastSquares_init_def broadcast_arrays_def common_length_def column_stack_def
        ex_lsq_2d_def ndim_def upt_conv_Cons Let_def)

text \<open>
  C7 does not hold of every constructed term. The docstring of the constructor asks for
  \<open>x\<close> of shape \<open>(D, N)\<close> when the model is multivariate, \<open>D\<close> the number of variables
  and \<open>N\<close> the number of points. The constructor stores \<^verbatim>\<open>x.ndim\<close>, the rank of
  \<open>x\<close>, in \<^verbatim>\<open>_ndim\<close>: this is 2 for every such \<open>x\<close>, while the data has \<open>D + 2\<close>
  columns. For \<open>x = [[1, 2], [3, 4], [5, 6]]\<close> of shape \<open>(3, 2)\<close>, \<open>y = [1, 2]\<close> and
  \<open>yerror = 1\<close> the term has five columns, and the call with loss \<open>linear\<close> unpacks the
  three columns \<^verbatim>\<open>self._masked.T[2:]\<close> into \<open>y, yerror\<close> and raises ValueError instead
  of returning \<open>sum(z * z)\<close>. For \<open>x = [[1, 2], [3, 4]]\<close> of shape \<open>(2, 2)\<close> and
  \<open>y = [4, 7]\<close> the call returns the sum of the squared residuals, 1.
\<close>

theorem LeastSquares_multivariate_call_raises:
  "LeastSquares_init (A2 2 [[Fin 1, Fin 2], [Fin 3, Fin 4], [Fin 5, Fin 6]]) [Fin 1, Fin 2]
     (Inl (Fin 1)) lsq_plane (LossName ''linear'') [''x'', ''a'', ''b'', ''c''] 0 = Inr ex_lsq_3d \<and>
   ls_ndim ex_lsq_3d = 2 \<and>
   shape (u_masked ex_lsq_3d) = [2, 5] \<and>
   LeastSquares_call ex_lsq_3d [Fin 1, Fin 1, Fin 1] =
     Inl (ValueError ''wrong number of values to unpack'') \<and>
   LeastSquares_init (A2 2 [[Fin 1, Fin 2], [Fin 3, Fin 4]]) [Fin 4, Fin 7]
     (Inl (Fin 1)) lsq_plane (LossName ''linear'') [''x'', ''a'', ''b''] 0 = Inr ex_lsq_2d \<and>
   LeastSquares_call ex_lsq_2d [Fin 1, Fin 1] = Inr (Fin 1)"
proof -
  have 1: "ls_ndim ex_lsq_3d = 2" "shape (u_masked ex_lsq_3d) = [2, 5]"
    by (simp_all add: ex_lsq_3d_def)
  have 2: "LeastSquares_call ex_lsq_3d [Fin 1, Fin 1, Fin 1] =
      Inl (ValueError ''wrong number of values to unpack'')"
    by (simp add: LeastSquares_call_def ex_lsq_3d_def column_def upt_conv_Cons)
  have 3: "LeastSquares_call ex_lsq_2d [Fin 1, Fin 1] = Inr (Fin 1)"
    by (simp add: LeastSquares_call_def ex_lsq_2d_def column_def upt_conv_Cons
          sum_z_squared_def z_squared_def broadcast2_def minus_npfloat_def)
  from ex_lsq_3d_init ex_lsq_2d_init 1 2 3 show ?thesis by blast
qed

subsection \<open>Terms in order are what constructors and setters produce\<close>

lemma assign_all_binned_shape:
  assumes "binned_shape xe old" "binned_shape xe new" "assign_all old new = Inr d"
  shows "binned_shape xe d"
proof (cases old)
  case (A0 x)
  with assms show ?thesis by simp
next
  case old: (A1 xs)
  with assms show ?thesis
    by (cases new) (auto split: if_splits)
next
  case old: (A2 k rows)
  show ?thesis
  proof (cases new)
    case (A0 x)
    with assms show ?thesis by simp
  next
    case (A1 ys)
    with old assms show ?thesis
      by (auto simp: list_all_iff split: if_splits)
  next
    case (A2 k' rows')
    with old assms show ?thesis
      by (auto simp: list_all_iff map_stretch_id split: if_splits)
  qed
qed

lemma BinnedCost_set_data_inv:
  assumes "binned_inv c" "BinnedCost_set_data val c = Inr c'"
  shows "binned_inv c' \<and> u_mask c' = u_mask c \<and> u_xe c' = u_xe c \<and> b_model c' = b_model c"
proof -
  from assms(2) obtain v where v: "prepare_data (u_xe c) val = Inr v" "set_data v c = Inr c'"
    by (auto simp: BinnedCost_set_data_def bind_err_def split: sum.splits)
  from v(2) have frame: "u_xe c' = u_xe c \<and> b_model c' = b_model c"
    by (auto simp: set_data_def update_masked_def bind_err_def split: sum.splits)
  from set_data_consistent[OF v(2)] have
    c: "consistent c'" "u_mask c' = u_mask c" "assign_all (u_data c) v = Inr (u_data c')"
    by simp_all
  from assms(1) have "binned_shape (u_xe c) (u_data c)" by (simp add: binned_inv_def)
  from assign_all_binned_shape[OF this prepare_data_shape[OF v(1)] c(3)] c frame
  show ?thesis by (simp add: binned_inv_def)
qed

lemma broadcast_arrays_length: "broadcast_arrays as = Inr cols \<Longrightarrow> length cols = length as"
  by (auto simp: broadcast_arrays_def Let_def split: if_splits)

lemma LeastSquares_init_view:
  assumes "LeastSquares_init (A1 xs) y ye model l names vb = Inr c" "set_mask m c = Inr c'"
  shows "lsq_inv c' \<and> ls_ndim c' = 1 \<and> (\<exists>rows. u_masked c' = A2 (ls_ndim c' + 2) rows)"
proof -
  from assms(1) obtain cols where
    cols: "broadcast_arrays ([xs] @ [y, case ye of Inl s \<Rightarrow> [s] | Inr a \<Rightarrow> a]) = Inr cols"
    and d: "u_data c = column_stack (length (hd cols)) cols"
    by (auto simp: LeastSquares_init_def Let_def bind_err_def split: sum.splits)
  from broadcast_arrays_length[OF cols] d obtain rows where rows: "u_data c = A2 3 rows"
    by (simp add: column_stack_def)
  from LeastSquares_init_inv[OF assms(1)] have inv: "lsq_inv c" and nd: "ls_ndim c = 1"
    by (simp_all add: ndim_def)
  from set_mask_lsq_inv[OF inv assms(2)] nd have
    inv': "lsq_inv c'" and nd': "ls_ndim c' = 1" and d': "u_data c' = u_data c"
    by simp_all
  from inv' have "masked_view (u_data c') (u_mask c') = Inr (u_masked c')"
    by (simp add: lsq_inv_def consistent_def)
  with d' rows have "masked_view (A2 3 rows) (u_mask c') = Inr (u_masked c')" by simp
  from masked_view_A2[OF this, of "\<lambda>r. True"] obtain v where "u_masked c' = A2 3 v"
    by (auto simp: list_all_iff)
  with inv' nd' show ?thesis by simp
qed

text \<open>
  A term constructed from a two-dimensional \<open>x\<close> of shape \<open>(D, N)\<close> has \<^verbatim>\<open>_ndim\<close> 2
  and \<open>D + 2\<close> columns. Unless \<open>D = 2\<close>, every call of it, under any mask, raises
  ValueError at the unpacking of \<open>y, yerror\<close>.
\<close>

lemma LeastSquares_call_unpack:
  assumes "u_masked c = A2 k rows" "ls_ndim c = 2" "k \<noteq> 4"
  shows "LeastSquares_call c args = Inl (ValueError ''wrong number of values to unpack'')"
proof -
  define l where "l = drop 2 (map (\<lambda>j. column j rows) [0..<k])"
  have ne: "length l \<noteq> 2"
    using assms(3) by (simp add: l_def)
  have "LeastSquares_call c args =
      (case l of
         [y, yerror] \<Rightarrow>
           ls_cost c y yerror
             (ls_model c (A2 (length rows) (take 2 (map (\<lambda>j. column j rows) [0..<k]))) args)
       | _ \<Rightarrow> Inl (ValueError ''wrong number of values to unpack''))"
    unfolding LeastSquares_call_def assms(1) ndarray.case Let_def assms(2) l_def
    by simp
  with ne show ?thesis
    by (auto split: list.splits)
qed

lemma LeastSquares_init_2d_raises:
  assumes init: "LeastSquares_init (A2 n xrows) y ye model l names vb = Inr c"
    and mask: "set_mask m c = Inr c'"
    and d: "length xrows \<noteq> 2"
  shows "ls_ndim c' = 2 \<and> lsq_inv c' \<and>
         LeastSquares_call c' args = Inl (ValueError ''wrong number of values to unpack'')"
proof -
  from init obtain cols where
    cols: "broadcast_arrays (xrows @ [y, case ye of Inl s \<Rightarrow> [s] | Inr a \<Rightarrow> a]) = Inr cols"
    and dat: "u_data c = column_stack (length (hd cols)) cols"
    by (auto simp: LeastSquares_init_def Let_def bind_err_def split: sum.splits)
  from broadcast_arrays_length[OF cols] dat obtain rows where
    rows: "u_data c = A2 (length xrows + 2) rows"
    by (simp add: column_stack_def)
  from LeastSquares_init_inv[OF init] have inv: "lsq_inv c" and nd: "ls_ndim c = 2"
    by (simp_all add: ndim_def)
  from set_mask_lsq_inv[OF inv mask] nd have
    inv': "lsq_inv c'" and nd': "ls_ndim c' = 2" and d': "u_data c' = u_data c"
    by simp_all
  from inv' have "masked_view (u_data c') (u_mask c') = Inr (u_masked c')"
    by (simp add: lsq_inv_def consistent_def)
  with d' rows have "masked_view (A2 (length xrows + 2) rows) (u_mask c') = Inr (u_masked c')"
    by simp
  from masked_view_A2[OF this, of "\<lambda>r. True"] obtain v where
    v: "u_masked c' = A2 (length xrows + 2) v"
    by (auto simp: list_all_iff)
  from d have "length xrows + 2 \<noteq> 4" by simp
  from LeastSquares_call_unpack[OF v nd' this] inv' nd' show ?thesis by simp
qed

end
